theory Spec2Isabelle
  imports Main
begin

section \<open>Flow data model (lib/models/flow.ts)\<close>

text \<open>
  The TypeScript interfaces become records. A field of type \<open>unknown\<close> is a value of
  the type parameter \<open>'u\<close>; an optional field (\<open>withType?: string\<close>) or a field of
  type \<open>T | undefined\<close> is an \<open>option\<close>, with \<open>None\<close> for \<open>undefined\<close>, so that
  \<open>===\<close> on two such fields is equality of options. A \<open>Date\<close> is its number of
  milliseconds since the epoch. The \<open>number\<close> fields \<open>offset\<close> and \<open>count\<close> are
  integers; the functions below never compute with them.
  Field names that several interfaces share carry the interface as a prefix
  (\<open>flowState\<close>, \<open>queryFlowId\<close>, \<open>resultSetState\<close>).
\<close>

datatype FlowState = UNSET | RUNNING | FINISHED | ERROR

record 'u Flow =
  flowId :: string
  clientId :: string
  lastActiveAt :: int
  startedAt :: int
  name :: string
  creator :: string
  args :: "'u option"
  progress :: "'u option"
  flowState :: FlowState

record 'u FlowResult =
  payload :: 'u
  tag :: string
  timestamp :: int

record FlowResultsQuery =
  queryFlowId :: string
  withType :: "string option"
  withTag :: "string option"
  offset :: int
  count :: int

datatype FlowResultSetState = IN_PROGRESS | FETCHED

record 'u FlowResultSet =
  sourceQuery :: FlowResultsQuery
  resultSetState :: FlowResultSetState
  items :: "'u FlowResult list"

record 'u FlowListEntry =
  flow :: "'u Flow"
  resultSets :: "'u FlowResultSet list"

subsection \<open>updateFlowListEntryResultSet\<close>

text \<open>
  The body of the \<open>for (const rs of fle.resultSets)\<close> loop, run over the remaining
  elements. The loop state is the pair of the array \<open>newResultSets\<close> built so far
  (\<open>push\<close> appends at the end) and the flag \<open>pushed\<close>.
\<close>

fun updateLoop ::
  "'u FlowResultSet \<Rightarrow> 'u FlowResultSet list \<Rightarrow> 'u FlowResultSet list \<times> bool
    \<Rightarrow> 'u FlowResultSet list \<times> bool" where
  "updateLoop resultSet [] (newResultSets, pushed) = (newResultSets, pushed)"
| "updateLoop resultSet (rs # rest) (newResultSets, pushed) =
     (if withTag (sourceQuery rs) = withTag (sourceQuery resultSet) \<and>
         withType (sourceQuery rs) = withType (sourceQuery resultSet)
      then updateLoop resultSet rest (newResultSets @ [resultSet], True)
      else updateLoop resultSet rest (newResultSets @ [rs], pushed))"

definition updateFlowListEntryResultSet ::
  "'u FlowListEntry \<Rightarrow> 'u FlowResultSet \<Rightarrow> 'u FlowListEntry" where
  "updateFlowListEntryResultSet fle resultSet =
     (case updateLoop resultSet (resultSets fle) ([], False) of
        (newResultSets, pushed) \<Rightarrow>
          fle\<lparr>resultSets :=
            (if \<not> pushed then newResultSets @ [resultSet] else newResultSets)\<rparr>)"

subsection \<open>findFlowListEntryResultSet and flowListEntryFromFlow\<close>

text \<open>
  \<open>Array.prototype.find\<close> returns the first element that satisfies the predicate, or
  \<open>undefined\<close>: that is \<open>List.find\<close>, with \<open>None\<close> for \<open>undefined\<close>.
\<close>

definition findFlowListEntryResultSet ::
  "'u FlowListEntry \<Rightarrow> string option \<Rightarrow> string option \<Rightarrow> 'u FlowResultSet option" where
  "findFlowListEntryResultSet fle wType wTag =
     List.find (\<lambda>rs. withType (sourceQuery rs) = wType \<and> withTag (sourceQuery rs) = wTag)
       (resultSets fle)"

definition flowListEntryFromFlow :: "'u Flow \<Rightarrow> 'u FlowListEntry" where
  "flowListEntryFromFlow fl = \<lparr>flow = fl, resultSets = []\<rparr>"

subsection \<open>Vocabulary for the statements\<close>

text \<open>The filter key of a result set, and the test the loop makes, under one name.\<close>

definition filterKey :: "'u FlowResultSet \<Rightarrow> string option \<times> string option" where
  "filterKey rs = (withType (sourceQuery rs), withTag (sourceQuery rs))"

definition sameKey :: "'u FlowResultSet \<Rightarrow> 'u FlowResultSet \<Rightarrow> bool" where
  "sameKey resultSet rs \<longleftrightarrow> filterKey rs = filterKey resultSet"

text \<open>
  What the loop and the final \<open>push\<close> compute, as one expression: every element with
  the key of \<open>resultSet\<close> replaced, or \<open>resultSet\<close> appended when there is none.
\<close>

definition mergeInto :: "'u FlowResultSet \<Rightarrow> 'u FlowResultSet list \<Rightarrow> 'u FlowResultSet list" where
  "mergeInto resultSet xs =
     (if \<exists>x \<in> set xs. sameKey resultSet x
      then map (\<lambda>x. if sameKey resultSet x then resultSet else x) xs
      else xs @ [resultSet])"

text \<open>
  The entries this module produces: flowListEntryFromFlow makes one, and
  updateFlowListEntryResultSet makes one from one. These are the entries of the data
  model, whose result sets are deduplicated by filter key.
\<close>

inductive apiEntry :: "'u FlowListEntry \<Rightarrow> bool" where
  fromFlow: "apiEntry (flowListEntryFromFlow fl)"
| updated: "apiEntry fle \<Longrightarrow> apiEntry (updateFlowListEntryResultSet fle resultSet)"

subsection \<open>The same functions over a store\<close>

text \<open>
  In JavaScript a flow list entry and its \<open>resultSets\<close> array are objects, held by
  reference and mutable. To say that the functions leave their arguments alone, the
  store is made explicit: a list of cells, an address being an index into it. An entry
  object holds its flow and the address of its array. The \<open>readonly\<close> records
  (\<open>Flow\<close>, \<open>FlowResultSet\<close>) are values. \<open>alloc\<close> is an array or object literal,
  \<open>push\<close> is \<open>Array.prototype.push\<close>; a read of an address that is no cell of the
  expected kind is \<open>None\<close>.

  \<open>updateFlowListEntryResultSetSt\<close> allocates the array \<open>newResultSets\<close>, runs the
  loop over the elements of \<open>fle.resultSets\<close> pushing into the new array, pushes once
  more when nothing was replaced, and allocates the object
  \<open>{...fle, resultSets: newResultSets}\<close>. \<open>findFlowListEntryResultSetSt\<close> only reads,
  and so returns no store.
\<close>

datatype 'u cell = ArrayCell "'u FlowResultSet list" | EntryCell "'u Flow" nat

type_synonym 'u store = "'u cell list"

definition cellAt :: "'u store \<Rightarrow> nat \<Rightarrow> 'u cell option" where
  "cellAt st a = (if a < length st then Some (st ! a) else None)"

definition alloc :: "'u store \<Rightarrow> 'u cell \<Rightarrow> 'u store \<times> nat" where
  "alloc st c = (st @ [c], length st)"

definition push :: "'u store \<Rightarrow> nat \<Rightarrow> 'u FlowResultSet \<Rightarrow> 'u store option" where
  "push st a x =
     (case cellAt st a of
        Some (ArrayCell xs) \<Rightarrow> Some (st[a := ArrayCell (xs @ [x])])
      | _ \<Rightarrow> None)"

fun updateLoopSt ::
  "'u FlowResultSet \<Rightarrow> 'u FlowResultSet list \<Rightarrow> nat \<Rightarrow> 'u store \<times> bool
    \<Rightarrow> ('u store \<times> bool) option" where
  "updateLoopSt resultSet [] newResultSets (st, pushed) = Some (st, pushed)"
| "updateLoopSt resultSet (rs # rest) newResultSets (st, pushed) =
     (if withTag (sourceQuery rs) = withTag (sourceQuery resultSet) \<and>
         withType (sourceQuery rs) = withType (sourceQuery resultSet)
      then (case push st newResultSets resultSet of
              None \<Rightarrow> None
            | Some st' \<Rightarrow> updateLoopSt resultSet rest newResultSets (st', True))
      else (case push st newResultSets rs of
              None \<Rightarrow> None
            | Some st' \<Rightarrow> updateLoopSt resultSet rest newResultSets (st', pushed)))"

definition updateFlowListEntryResultSetSt ::
  "'u store \<Rightarrow> nat \<Rightarrow> 'u FlowResultSet \<Rightarrow> ('u store \<times> nat) option" where
  "updateFlowListEntryResultSetSt st fle resultSet =
     (case cellAt st fle of
        Some (EntryCell fl arr) \<Rightarrow>
          (case cellAt st arr of
             Some (ArrayCell xs) \<Rightarrow>
               (case alloc st (ArrayCell []) of
                  (st1, newResultSets) \<Rightarrow>
                    (case updateLoopSt resultSet xs newResultSets (st1, False) of
                       None \<Rightarrow> None
                     | Some (st2, pushed) \<Rightarrow>
                         (case (if \<not> pushed then push st2 newResultSets resultSet else Some st2) of
                            None \<Rightarrow> None
                          | Some st3 \<Rightarrow> Some (alloc st3 (EntryCell fl newResultSets)))))
           | _ \<Rightarrow> None)
      | _ \<Rightarrow> None)"

definition findFlowListEntryResultSetSt ::
  "'u store \<Rightarrow> nat \<Rightarrow> string option \<Rightarrow> string option \<Rightarrow> 'u FlowResultSet option option" where
  "findFlowListEntryResultSetSt st fle wType wTag =
     (case cellAt st fle of
        Some (EntryCell fl arr) \<Rightarrow>
          (case cellAt st arr of
             Some (ArrayCell xs) \<Rightarrow>
               Some (List.find
                 (\<lambda>rs. withType (sourceQuery rs) = wType \<and> withTag (sourceQuery rs) = wTag) xs)
           | _ \<Rightarrow> None)
      | _ \<Rightarrow> None)"

definition readEntry :: "'u store \<Rightarrow> nat \<Rightarrow> 'u FlowListEntry option" where
  "readEntry st a =
     (case cellAt st a of
        Some (EntryCell fl arr) \<Rightarrow>
          (case cellAt st arr of
             Some (ArrayCell xs) \<Rightarrow> Some \<lparr>flow = fl, resultSets = xs\<rparr>
           | _ \<Rightarrow> None)
      | _ \<Rightarrow> None)"

section \<open>Report controller (grrUi.stats.reportDirective)\<close>

subsection \<open>JavaScript values\<close>

text \<open>
  The scope parameters and the controller's fields hold whatever the bindings put there,
  so they are JavaScript values. \<open>JNum n\<close> is a number whose value is the integer \<open>n\<close>
  (the timestamps and durations of this code are integers far below \<open>2^53\<close>, where the
  arithmetic of doubles is exact and \<open>String\<close> prints plain decimal digits); \<open>JNaN\<close>
  is \<open>NaN\<close>. \<open>truthy\<close> is the test of \<open>if (v)\<close>, \<open>v = Null\<close> the test of
  \<open>v === null\<close>, \<open>toString\<close> the conversion made by \<open>'stats/reports/' + name\<close>.
  An object is a map from property names to values, and reading a property that is not
  there gives \<open>undefined\<close>.
\<close>

datatype jsval = Undefined | Null | JBool bool | JNum int | JNaN | JStr string

fun truthy :: "jsval \<Rightarrow> bool" where
  "truthy Undefined = False"
| "truthy Null = False"
| "truthy (JBool b) = b"
| "truthy (JNum n) = (n \<noteq> 0)"
| "truthy JNaN = False"
| "truthy (JStr s) = (s \<noteq> [])"

definition digitChar :: "nat \<Rightarrow> char" where
  "digitChar n = ''0123456789'' ! n"

function natToString :: "nat \<Rightarrow> string" where
  "natToString n =
     (if n < 10 then [digitChar n] else natToString (n div 10) @ [digitChar (n mod 10)])"
  by pat_completeness auto
termination
  by (relation "measure id") auto

fun toString :: "jsval \<Rightarrow> string" where
  "toString Undefined = ''undefined''"
| "toString Null = ''null''"
| "toString (JBool b) = (if b then ''true'' else ''false'')"
| "toString (JNum n) = (if n < 0 then CHR ''-'' # natToString (nat (- n)) else natToString (nat n))"
| "toString JNaN = ''NaN''"
| "toString (JStr s) = s"

type_synonym jsobject = "string \<rightharpoonup> jsval"

definition getProp :: "jsobject \<Rightarrow> string \<Rightarrow> jsval" where
  "getProp obj k = (case obj k of None \<Rightarrow> Undefined | Some v \<Rightarrow> v)"

subsection \<open>What the controller is given\<close>

text \<open>
  The functions the file imports (\<open>grrUi.core.apiService.stripTypeInfo\<close>,
  \<open>grrUi.core.utils.upperCaseToTitleCase\<close>) and the reading of the clock
  \<open>moment().valueOf()\<close> made when the script is evaluated are parameters:
  \<open>momentNow\<close> is that one reading, in milliseconds. The type \<open>'j\<close> is that of the
  JSON values the server sends and \<open>stripTypeInfo\<close> returns. \<open>typeProperty\<close> is the
  property read \<open>v['type']\<close> on such a value: \<open>None\<close> when \<open>v\<close> is \<open>undefined\<close> or
  \<open>null\<close>, where the read throws, and otherwise the value read. The two functions are
  taken to return.
\<close>

record 'j externals =
  momentNow :: int
  stripTypeInfo :: "'j \<Rightarrow> 'j"
  typeProperty :: "'j \<Rightarrow> jsval option"
  upperCaseToTitleCase :: "jsval \<Rightarrow> string"

text \<open>
  The module-level variables. \<open>DEFAULT_START_TIME\<close> is computed once, from the clock
  reading at script evaluation.
\<close>

definition MONTH_SECONDS :: int where
  "MONTH_SECONDS = 30 * 24 * 60 * 60"

definition DEFAULT_START_TIME :: "'j externals \<Rightarrow> int" where
  "DEFAULT_START_TIME E = (momentNow E - MONTH_SECONDS * 1000) * 1000"

definition DEFAULT_DURATION :: int where
  "DEFAULT_DURATION = MONTH_SECONDS"

definition DEFAULT_CLIENT_LABEL :: string where
  "DEFAULT_CLIENT_LABEL = ''''"

subsection \<open>Controller, scope and requests in flight\<close>

text \<open>
  The fields of \<open>ReportController\<close>; a field declared without a value is \<open>None\<close>
  until it is assigned. The world the handlers run in is the controller, the directive's
  scope (\<open>this.scope_\<close>, here \<open>scope\<close>) and the asynchronous calls that have been made
  and not yet settled, each with the callback its \<open>then\<close> attaches. No call has a
  rejection callback.
\<close>

record 'j ReportController =
  state :: string
  titleCasedType :: "string option"
  reportData :: "'j option"
  reportDesc :: "'j option"
  startTime :: jsval
  typedStartTime :: "jsobject option"
  duration :: jsval
  typedDuration :: "jsobject option"
  labelsList :: "'j option"
  clientLabel :: jsval
  modelClientLabel :: jsval

datatype call = ApiGet string "jsobject option" | GetRDFValueDescriptor string

datatype callback =
  LabelsLoaded | ReportLoaded | DatetimeDescriptorLoaded | DurationDescriptorLoaded

record 'j world =
  ctrl :: "'j ReportController"
  scope :: jsobject
  pending :: "(call \<times> callback) list"

subsection \<open>Constructor and handlers\<close>

text \<open>
  \<open>construct\<close> is the constructor: the initial fields, and the two calls it makes
  (\<open>getRDFValueDescriptor('RDFDatetime')\<close>, then \<open>get('/clients/labels')\<close>).
  \<open>fetchData\<close> is \<open>fetchData_\<close>, \<open>reportLoaded\<close> the callback of its request, and
  \<open>onParamsChange\<close> is \<open>onParamsChange_\<close> (a name cannot end in an underscore here).
  A handler runs to completion before any callback does, so within \<open>fetchData\<close> the
  assignment of the state and the call are one step of the world; the call is made from
  the world in which the state is already \<open>'LOADING'\<close>.
\<close>

definition construct :: "'j externals \<Rightarrow> jsobject \<Rightarrow> 'j world" where
  "construct E sc =
     \<lparr>ctrl = \<lparr>state = ''INITIAL'', titleCasedType = None, reportData = None,
        reportDesc = None, startTime = JNum (DEFAULT_START_TIME E), typedStartTime = None,
        duration = JNum DEFAULT_DURATION, typedDuration = None, labelsList = None,
        clientLabel = JStr DEFAULT_CLIENT_LABEL, modelClientLabel = JStr DEFAULT_CLIENT_LABEL\<rparr>,
      scope = sc,
      pending = [(GetRDFValueDescriptor ''RDFDatetime'', DatetimeDescriptorLoaded),
                 (ApiGet ''/clients/labels'' None, LabelsLoaded)]\<rparr>"

definition fetchData :: "'j world \<Rightarrow> 'j world" where
  "fetchData w =
     (let name = getProp (scope w) ''name'' in
      if truthy name then
        (let w1 = w\<lparr>ctrl := (ctrl w)\<lparr>state := ''LOADING''\<rparr>\<rparr>;
             apiUrl = ''stats/reports/'' @ toString name;
             apiParams = [''start_time'' \<mapsto> startTime (ctrl w1),
                          ''duration'' \<mapsto> duration (ctrl w1),
                          ''client_label'' \<mapsto> clientLabel (ctrl w1)]
         in w1\<lparr>pending := pending w1 @ [(ApiGet apiUrl (Some apiParams), ReportLoaded)]\<rparr>)
      else w)"

text \<open>
  A read of a property of \<open>undefined\<close> or \<open>null\<close> throws a TypeError, and a handler
  that throws stops there: what it has assigned so far stays, the rest does not happen.
  Such a handler returns the world at the throw together with the error.
\<close>

datatype jserror = TypeError

text \<open>
  The callback of the report request. \<open>response['data']\<close> is the object the server
  sent, with its \<open>data\<close> and \<open>desc\<close>. The callback stores the stripped data and the
  stripped description, then reads \<open>this.reportDesc['type']\<close>: when the stripped
  description is \<open>undefined\<close> or \<open>null\<close> that read throws, after the two assignments
  and before the title and the state are assigned.
\<close>

definition reportLoaded ::
  "'j externals \<Rightarrow> 'j \<Rightarrow> 'j \<Rightarrow> 'j world \<Rightarrow> 'j world \<times> jserror option" where
  "reportLoaded E responseData responseDesc w =
     (let c1 = (ctrl w)\<lparr>reportData := Some (stripTypeInfo E responseData)\<rparr>;
          c2 = c1\<lparr>reportDesc := Some (stripTypeInfo E responseDesc)\<rparr>
      in case typeProperty E (stripTypeInfo E responseDesc) of
           None \<Rightarrow> (w\<lparr>ctrl := c2\<rparr>, Some TypeError)
         | Some t \<Rightarrow>
             (let c3 = c2\<lparr>titleCasedType := Some (upperCaseToTitleCase E t)\<rparr>;
                  c4 = c3\<lparr>state := ''LOADED''\<rparr>
              in (w\<lparr>ctrl := c4\<rparr>, None)))"

definition onParamsChange :: "'j externals \<Rightarrow> 'j world \<Rightarrow> 'j world" where
  "onParamsChange E w =
     (let startTimeP = getProp (scope w) ''startTime'';
          c1 = (if truthy startTimeP then (ctrl w)\<lparr>startTime := startTimeP\<rparr> else ctrl w);
          c2 = (if startTimeP = Null then c1\<lparr>startTime := JNum (DEFAULT_START_TIME E)\<rparr> else c1);
          durationP = getProp (scope w) ''duration'';
          c3 = (if truthy durationP then c2\<lparr>duration := durationP\<rparr> else c2);
          c4 = (if durationP = Null then c3\<lparr>duration := JNum DEFAULT_DURATION\<rparr> else c3);
          clientLabelP = getProp (scope w) ''clientLabel'';
          c5 = (if truthy clientLabelP then c4\<lparr>clientLabel := clientLabelP\<rparr> else c4);
          c6 = (if clientLabelP = Null then c5\<lparr>clientLabel := JStr DEFAULT_CLIENT_LABEL\<rparr> else c5);
          w' = w\<lparr>ctrl := c6\<rparr>
      in if truthy (getProp (scope w') ''name'') then fetchData w' else w')"

text \<open>
  \<open>refreshReport\<close> reads \<open>this.typedStartTime['value']\<close> and
  \<open>this.typedDuration['value']\<close>, each of which throws while the field is not set.
\<close>

definition refreshReport :: "'j world \<Rightarrow> 'j world \<times> jserror option" where
  "refreshReport w =
     (case typedStartTime (ctrl w) of
        None \<Rightarrow> (w, Some TypeError)
      | Some tst \<Rightarrow>
          (let w1 = w\<lparr>scope := (scope w)(''startTime'' \<mapsto> getProp tst ''value'')\<rparr> in
           case typedDuration (ctrl w1) of
             None \<Rightarrow> (w1, Some TypeError)
           | Some td \<Rightarrow>
               (let w2 = w1\<lparr>scope := (scope w1)(''duration'' \<mapsto> getProp td ''value'')\<rparr>;
                    w3 = w2\<lparr>scope := (scope w2)(''clientLabel'' \<mapsto> modelClientLabel (ctrl w2))\<rparr>
                in (w3, None))))"

text \<open>
  The callbacks of the constructor's calls, and the three watchers on controller
  fields. The payload of a descriptor callback is \<open>rdfDesc['default']\<close>, taken to be an
  object; \<open>angular.copy\<close> copies it, and the copy gets its \<open>value\<close> property. The
  watchers of \<open>controller.startTime\<close> and \<open>controller.duration\<close> are registered in the
  callback that assigns \<open>typedStartTime\<close> (\<open>typedDuration\<close>), so they exist exactly when
  that field is set.
\<close>

definition datetimeDescriptorLoaded :: "jsobject \<Rightarrow> 'j world \<Rightarrow> 'j world" where
  "datetimeDescriptorLoaded rdfDefault w =
     (let c1 = (ctrl w)\<lparr>typedStartTime := Some rdfDefault\<rparr>;
          c2 = c1\<lparr>typedStartTime := Some (rdfDefault(''value'' \<mapsto> startTime c1))\<rparr>
      in w\<lparr>ctrl := c2,
            pending := pending w @ [(GetRDFValueDescriptor ''Duration'', DurationDescriptorLoaded)]\<rparr>)"

definition durationDescriptorLoaded :: "jsobject \<Rightarrow> 'j world \<Rightarrow> 'j world" where
  "durationDescriptorLoaded rdfDefault w =
     (let c1 = (ctrl w)\<lparr>typedDuration := Some rdfDefault\<rparr>;
          c2 = c1\<lparr>typedDuration := Some (rdfDefault(''value'' \<mapsto> duration c1))\<rparr>
      in w\<lparr>ctrl := c2\<rparr>)"

definition labelsLoaded :: "'j externals \<Rightarrow> 'j \<Rightarrow> 'j world \<Rightarrow> 'j world" where
  "labelsLoaded E responseItems w =
     w\<lparr>ctrl := (ctrl w)\<lparr>labelsList := Some (stripTypeInfo E responseItems)\<rparr>\<rparr>"

definition watchStartTime :: "'j world \<Rightarrow> 'j world option" where
  "watchStartTime w =
     (case typedStartTime (ctrl w) of
        None \<Rightarrow> None
      | Some t \<Rightarrow>
          Some (w\<lparr>ctrl := (ctrl w)\<lparr>typedStartTime := Some (t(''value'' \<mapsto> startTime (ctrl w)))\<rparr>\<rparr>))"

definition watchDuration :: "'j world \<Rightarrow> 'j world option" where
  "watchDuration w =
     (case typedDuration (ctrl w) of
        None \<Rightarrow> None
      | Some t \<Rightarrow>
          Some (w\<lparr>ctrl := (ctrl w)\<lparr>typedDuration := Some (t(''value'' \<mapsto> duration (ctrl w)))\<rparr>\<rparr>))"

definition watchClientLabel :: "'j world \<Rightarrow> 'j world" where
  "watchClientLabel w = w\<lparr>ctrl := (ctrl w)\<lparr>modelClientLabel := clientLabel (ctrl w)\<rparr>\<rparr>"

subsection \<open>The event loop\<close>

text \<open>
  Everything that can happen to the controller, one event at a time: the parent or
  \<open>refreshReport\<close> assigns a scope parameter; the watch group fires and calls
  \<open>onParamsChange_\<close>; a controller watcher fires; the user edits one of the three fields
  the form is bound to; the user presses the button; a call in flight is resolved with a
  payload, or rejected. \<open>exec\<close> is \<open>None\<close> when the event cannot happen (no such call
  in flight, a payload of the wrong kind, a watcher that is not registered). A rejected
  call is only taken out of the list: there is no callback to run. After a handler or a
  callback that throws, the world is the one at the throw. When the framework
  fires which watcher is left open, so every run of the real page is a run here.
\<close>

datatype 'j payload = ReportResponse 'j 'j | LabelsResponse 'j | Descriptor jsobject

datatype 'j event =
  ScopeAssign string jsval
| ParamsChange
| WatchStartTime
| WatchDuration
| WatchClientLabel
| EditTypedStartTime jsval
| EditTypedDuration jsval
| EditModelClientLabel jsval
| RefreshReport
| Resolve nat "'j payload"
| Reject nat

definition settle :: "nat \<Rightarrow> 'j world \<Rightarrow> 'j world" where
  "settle i w = w\<lparr>pending := take i (pending w) @ drop (Suc i) (pending w)\<rparr>"

fun deliver :: "'j externals \<Rightarrow> callback \<Rightarrow> 'j payload \<Rightarrow> 'j world \<Rightarrow> 'j world option" where
  "deliver E ReportLoaded (ReportResponse d e) w = Some (fst (reportLoaded E d e w))"
| "deliver E LabelsLoaded (LabelsResponse r) w = Some (labelsLoaded E r w)"
| "deliver E DatetimeDescriptorLoaded (Descriptor obj) w = Some (datetimeDescriptorLoaded obj w)"
| "deliver E DurationDescriptorLoaded (Descriptor obj) w = Some (durationDescriptorLoaded obj w)"
| "deliver E cb p w = None"

fun exec :: "'j externals \<Rightarrow> 'j event \<Rightarrow> 'j world \<Rightarrow> 'j world option" where
  "exec E (ScopeAssign k v) w = Some (w\<lparr>scope := (scope w)(k \<mapsto> v)\<rparr>)"
| "exec E ParamsChange w = Some (onParamsChange E w)"
| "exec E WatchStartTime w = watchStartTime w"
| "exec E WatchDuration w = watchDuration w"
| "exec E WatchClientLabel w = Some (watchClientLabel w)"
| "exec E (EditTypedStartTime v) w =
     (case typedStartTime (ctrl w) of
        None \<Rightarrow> None
      | Some t \<Rightarrow> Some (w\<lparr>ctrl := (ctrl w)\<lparr>typedStartTime := Some (t(''value'' \<mapsto> v))\<rparr>\<rparr>))"
| "exec E (EditTypedDuration v) w =
     (case typedDuration (ctrl w) of
        None \<Rightarrow> None
      | Some t \<Rightarrow> Some (w\<lparr>ctrl := (ctrl w)\<lparr>typedDuration := Some (t(''value'' \<mapsto> v))\<rparr>\<rparr>))"
| "exec E (EditModelClientLabel v) w = Some (w\<lparr>ctrl := (ctrl w)\<lparr>modelClientLabel := v\<rparr>\<rparr>)"
| "exec E RefreshReport w = Some (fst (refreshReport w))"
| "exec E (Resolve i p) w =
     (if i < length (pending w) then deliver E (snd (pending w ! i)) p (settle i w) else None)"
| "exec E (Reject i) w = (if i < length (pending w) then Some (settle i w) else None)"

fun run :: "'j externals \<Rightarrow> 'j event list \<Rightarrow> 'j world \<Rightarrow> 'j world option" where
  "run E [] w = Some w"
| "run E (ev # evs) w = (case exec E ev w of None \<Rightarrow> None | Some w' \<Rightarrow> run E evs w')"

inductive reachable :: "'j externals \<Rightarrow> 'j world \<Rightarrow> bool" for E :: "'j externals" where
  constructed: "reachable E (construct E sc)"
| step: "reachable E w \<Longrightarrow> exec E ev w = Some w' \<Longrightarrow> reachable E w'"

subsection \<open>Vocabulary for the statements\<close>

text \<open>
  The three pairs of \<open>if\<close> statements of \<open>onParamsChange_\<close> as one update of the
  controller: \<open>null\<close> gives the default, any other truthy value is stored, anything else
  leaves the field as it is.
\<close>

definition normalized :: "'j externals \<Rightarrow> 'j world \<Rightarrow> 'j world" where
  "normalized E w =
     w\<lparr>ctrl := (ctrl w)\<lparr>
       startTime :=
         (if getProp (scope w) ''startTime'' = Null then JNum (DEFAULT_START_TIME E)
          else if truthy (getProp (scope w) ''startTime'') then getProp (scope w) ''startTime''
          else startTime (ctrl w)),
       duration :=
         (if getProp (scope w) ''duration'' = Null then JNum DEFAULT_DURATION
          else if truthy (getProp (scope w) ''duration'') then getProp (scope w) ''duration''
          else duration (ctrl w)),
       clientLabel :=
         (if getProp (scope w) ''clientLabel'' = Null then JStr DEFAULT_CLIENT_LABEL
          else if truthy (getProp (scope w) ''clientLabel'') then getProp (scope w) ''clientLabel''
          else clientLabel (ctrl w))\<rparr>\<rparr>"

section \<open>Concrete data for the closed theorems\<close>

definition flow0 :: "unit Flow" where
  "flow0 = \<lparr>flowId = ''F1'', clientId = ''C.1'', lastActiveAt = 2000, startedAt = 1000,
     name = ''ListProcesses'', creator = ''alice'', args = None, progress = None,
     flowState = RUNNING\<rparr>"

definition mkResultSet :: "string option \<Rightarrow> string option \<Rightarrow> int \<Rightarrow> unit FlowResultSet" where
  "mkResultSet wType wTag off =
     \<lparr>sourceQuery = \<lparr>queryFlowId = ''F1'', withType = wType, withTag = wTag,
        offset = off, count = 100\<rparr>,
      resultSetState = FETCHED, items = []\<rparr>"

definition rsA :: "unit FlowResultSet" where "rsA = mkResultSet None None 0"
definition rsB :: "unit FlowResultSet" where "rsB = mkResultSet (Some ''StatEntry'') None 0"
definition rsNew :: "unit FlowResultSet" where "rsNew = mkResultSet None None 100"
definition rsOther :: "unit FlowResultSet" where "rsOther = mkResultSet None (Some ''tag'') 0"
definition fle1 :: "unit FlowListEntry" where "fle1 = \<lparr>flow = flow0, resultSets = [rsA, rsB]\<rparr>"

definition store0 :: "unit store" where
  "store0 = [ArrayCell [rsA, rsB], EntryCell flow0 0]"

text \<open>
  Concrete worlds. \<open>E0\<close> loads the script at clock reading 0; its JSON values are
  strings, the empty string standing for \<open>undefined\<close>. \<open>wSet\<close> is the world after the
  parent has set the three parameters and the watch group has fired; \<open>wFresh\<close> is the
  world as constructed, after the user has edited the label; \<open>wHalf\<close> is the
  world after the first descriptor has arrived and the user has edited the start time and
  the label, \<open>wLoaded\<close> the world after both descriptors have arrived, \<open>wEdited\<close> the
  same after the user has edited the form.
\<close>

definition E0 :: "string externals" where
  "E0 = \<lparr>momentNow = 0, stripTypeInfo = id,
          typeProperty = (\<lambda>v. if v = [] then None else Some (JStr v)),
          upperCaseToTitleCase = toString\<rparr>"

definition traceSet :: "string event list" where
  "traceSet = [ScopeAssign ''startTime'' (JNum 5), ScopeAssign ''duration'' (JNum 7),
     ScopeAssign ''clientLabel'' (JStr ''lbl''), ParamsChange]"

definition traceTwoFetches :: "string event list" where
  "traceTwoFetches = [ScopeAssign ''name'' (JStr ''X''), ParamsChange,
     ScopeAssign ''startTime'' (JNum 5), ParamsChange,
     Resolve 2 (ReportResponse ''data'' ''CLIENT_ACTIVITY''), Reject 2]"

definition wNamed :: "string world" where
  "wNamed = construct E0 [''name'' \<mapsto> JStr ''X'']"

definition descriptor0 :: jsobject where
  "descriptor0 = [''type'' \<mapsto> JStr ''RDFDatetime'', ''value'' \<mapsto> JNum 0]"

definition wFresh :: "string world" where
  "wFresh =
     (construct E0 Map.empty)\<lparr>ctrl :=
        (ctrl (construct E0 Map.empty))\<lparr>modelClientLabel := JStr ''srv''\<rparr>\<rparr>"

definition traceHalf :: "string event list" where
  "traceHalf = [Resolve 0 (Descriptor descriptor0), EditTypedStartTime (JNum 111),
     EditModelClientLabel (JStr ''srv'')]"

definition wHalf :: "string world" where
  "wHalf =
     (let w1 = datetimeDescriptorLoaded descriptor0 (settle 0 (construct E0 Map.empty));
          w2 = w1\<lparr>ctrl := (ctrl w1)\<lparr>typedStartTime := Some (descriptor0(''value'' \<mapsto> JNum 111))\<rparr>\<rparr>
      in w2\<lparr>ctrl := (ctrl w2)\<lparr>modelClientLabel := JStr ''srv''\<rparr>\<rparr>)"

definition wLoaded :: "string world" where
  "wLoaded =
     durationDescriptorLoaded descriptor0 (settle 1
       (datetimeDescriptorLoaded descriptor0 (settle 0 (construct E0 Map.empty))))"

definition wEdited :: "string world" where
  "wEdited = wLoaded\<lparr>ctrl := (ctrl wLoaded)\<lparr>
       typedStartTime := Some (descriptor0(''value'' \<mapsto> JNum 111)),
       typedDuration := Some (descriptor0(''value'' \<mapsto> JNum 222)),
       modelClientLabel := JStr ''srv''\<rparr>\<rparr>"

definition wSet :: "string world" where
  "wSet = onParamsChange E0 (construct E0
     [''startTime'' \<mapsto> JNum 5, ''duration'' \<mapsto> JNum 7, ''clientLabel'' \<mapsto> JStr ''lbl''])"

definition wNull :: "string world" where
  "wNull = wSet\<lparr>scope := [''startTime'' \<mapsto> Null, ''duration'' \<mapsto> Null, ''clientLabel'' \<mapsto> Null]\<rparr>"

definition wUnset :: "string world" where
  "wUnset = wSet\<lparr>scope := [''duration'' \<mapsto> JNum 0, ''clientLabel'' \<mapsto> JStr '''']\<rparr>"

definition wInvalid :: "string world" where
  "wInvalid = wSet\<lparr>scope := [''startTime'' \<mapsto> JStr ''abc'', ''duration'' \<mapsto> JBool True,
     ''clientLabel'' \<mapsto> JNum 3]\<rparr>"

definition wFetching :: "string world" where
  "wFetching = onParamsChange E0 wNamed"

section \<open>Properties of the flow model utilities\<close>

subsection \<open>The loop in closed form\<close>

lemmas concrete_defs = rsA_def rsB_def rsNew_def rsOther_def fle1_def mkResultSet_def flow0_def

lemma sameKey_iff:
  "sameKey r x \<longleftrightarrow>
     withTag (sourceQuery x) = withTag (sourceQuery r) \<and>
     withType (sourceQuery x) = withType (sourceQuery r)"
  by (auto simp: sameKey_def filterKey_def)

lemma sameKey_refl: "sameKey r r"
  by (simp add: sameKey_def)

lemma updateLoop_Cons:
  "updateLoop r (x # xs) (acc, p) =
     (if sameKey r x then updateLoop r xs (acc @ [r], True)
      else updateLoop r xs (acc @ [x], p))"
  by (simp add: sameKey_iff)

lemma updateLoop_eq:
  "updateLoop r xs (acc, p) =
     (acc @ map (\<lambda>x. if sameKey r x then r else x) xs, p \<or> (\<exists>x \<in> set xs. sameKey r x))"
proof (induction xs arbitrary: acc p)
  case Nil
  show ?case by simp
next
  case (Cons x xs)
  show ?case
    unfolding updateLoop_Cons by (simp add: Cons.IH)
qed

lemma replace_none:
  "\<forall>x \<in> set xs. \<not> sameKey r x \<Longrightarrow> map (\<lambda>x. if sameKey r x then r else x) xs = xs"
  by (induction xs) auto

lemma update_eq:
  "updateFlowListEntryResultSet fle r = fle\<lparr>resultSets := mergeInto r (resultSets fle)\<rparr>"
  by (simp add: updateFlowListEntryResultSet_def updateLoop_eq mergeInto_def replace_none)

lemma resultSets_update:
  "resultSets (updateFlowListEntryResultSet fle r) = mergeInto r (resultSets fle)"
  by (simp add: update_eq)

lemma mergeInto_has_match: "\<exists>x \<in> set (mergeInto r xs). sameKey r x"
proof (cases "\<exists>x \<in> set xs. sameKey r x")
  case True
  then obtain x where x: "x \<in> set xs" "sameKey r x" by blast
  have "(if sameKey r x then r else x) \<in> set (map (\<lambda>x. if sameKey r x then r else x) xs)"
    unfolding set_map using x(1) by (rule imageI)
  then have "r \<in> set (mergeInto r xs)"
    using True x(2) by (simp add: mergeInto_def)
  then show ?thesis using sameKey_refl by blast
next
  case False
  then show ?thesis by (simp add: mergeInto_def sameKey_refl)
qed

lemma mergeInto_fix:
  "\<forall>x \<in> set ys. sameKey r x \<longrightarrow> x = r \<Longrightarrow> map (\<lambda>x. if sameKey r x then r else x) ys = ys"
  by (induction ys) auto

lemma mergeInto_matches_are_new:
  "x \<in> set (mergeInto r xs) \<Longrightarrow> sameKey r x \<Longrightarrow> x = r"
  by (auto simp: mergeInto_def split: if_splits)

lemma mergeInto_idem: "mergeInto r (mergeInto r xs) = mergeInto r xs"
proof -
  have "\<exists>x \<in> set (mergeInto r xs). sameKey r x" by (rule mergeInto_has_match)
  then have "mergeInto r (mergeInto r xs) =
      map (\<lambda>x. if sameKey r x then r else x) (mergeInto r xs)"
    by (simp add: mergeInto_def [of r "mergeInto r xs"])
  also have "\<dots> = mergeInto r xs"
    by (rule mergeInto_fix) (blast dest: mergeInto_matches_are_new)
  finally show ?thesis .
qed

lemma find_first_match:
  "\<exists>x \<in> set ys. P x \<Longrightarrow> \<forall>x \<in> set ys. P x \<longrightarrow> x = r \<Longrightarrow> List.find P ys = Some r"
  by (induction ys) auto

lemma filter_one_update:
  "length (filter P xs) = 1 \<Longrightarrow>
     \<exists>i<length xs. P (xs ! i) \<and> map (\<lambda>x. if P x then r else x) xs = xs[i := r]"
proof (induction xs)
  case Nil
  then show ?case by simp
next
  case (Cons x xs)
  show ?case
  proof (cases "P x")
    case True
    with Cons.prems have "filter P xs = []" by simp
    then have "\<forall>y \<in> set xs. \<not> P y" by (simp add: filter_empty_conv)
    then have "map (\<lambda>x. if P x then r else x) xs = xs" by (induction xs) auto
    with True have "P ((x # xs) ! 0) \<and> map (\<lambda>x. if P x then r else x) (x # xs) = (x # xs)[0 := r]"
      by simp
    then show ?thesis by blast
  next
    case False
    with Cons.prems have "length (filter P xs) = 1" by simp
    from Cons.IH [OF this] obtain i where
      i: "i < length xs" "P (xs ! i)" "map (\<lambda>x. if P x then r else x) xs = xs[i := r]"
      by blast
    with False have "Suc i < length (x # xs) \<and> P ((x # xs) ! Suc i) \<and>
        map (\<lambda>x. if P x then r else x) (x # xs) = (x # xs)[Suc i := r]"
      by simp
    then show ?thesis by blast
  qed
qed

lemma distinct_keys_one_match:
  "distinct (map filterKey xs) \<Longrightarrow> length (filter (sameKey r) xs) \<le> 1"
proof (induction xs)
  case Nil
  then show ?case by simp
next
  case (Cons x xs)
  show ?case
  proof (cases "sameKey r x")
    case True
    have "\<forall>y \<in> set xs. \<not> sameKey r y"
    proof
      fix y assume "y \<in> set xs"
      then have "filterKey y \<in> filterKey ` set xs" by (rule imageI)
      moreover from Cons.prems have "filterKey x \<notin> filterKey ` set xs" by simp
      ultimately have "filterKey y \<noteq> filterKey x" by metis
      with True show "\<not> sameKey r y" by (simp add: sameKey_def)
    qed
    then have "filter (sameKey r) xs = []" by (simp add: filter_empty_conv)
    with True show ?thesis by simp
  next
    case False
    with Cons show ?thesis by simp
  qed
qed

lemma filterKey_replace:
  "map filterKey (map (\<lambda>x. if sameKey r x then r else x) xs) = map filterKey xs"
  by (induction xs) (auto simp: sameKey_def)

lemma distinct_keys_mergeInto:
  "distinct (map filterKey xs) \<Longrightarrow> distinct (map filterKey (mergeInto r xs))"
proof (cases "\<exists>x \<in> set xs. sameKey r x")
  case True
  assume "distinct (map filterKey xs)"
  with True show ?thesis by (simp only: mergeInto_def if_True filterKey_replace)
next
  case False
  assume d: "distinct (map filterKey xs)"
  from False have "filterKey r \<notin> filterKey ` set xs" by (auto simp: sameKey_def)
  with False d show ?thesis by (simp add: mergeInto_def)
qed

lemma distinct_keys_unique_match:
  assumes "distinct (map filterKey xs)" "i < length xs" "j < length xs"
    "sameKey r (xs ! i)" "sameKey r (xs ! j)"
  shows "i = j"
proof -
  from assms(4,5) have "filterKey (xs ! i) = filterKey (xs ! j)"
    by (simp add: sameKey_def)
  with assms(2,3) have "map filterKey xs ! i = map filterKey xs ! j" by simp
  moreover have "(map filterKey xs ! i = map filterKey xs ! j) = (i = j)"
    using assms(1,2,3) by (intro nth_eq_iff_index_eq) simp_all
  ultimately show ?thesis by blast
qed

lemma apiEntry_distinct_keys: "apiEntry fle \<Longrightarrow> distinct (map filterKey (resultSets fle))"
proof (induction rule: apiEntry.induct)
  case (fromFlow fl)
  show ?case by (simp add: flowListEntryFromFlow_def)
next
  case (updated fle resultSet)
  then show ?case by (simp add: resultSets_update distinct_keys_mergeInto)
qed

subsection \<open>Merging a result set\<close>

text \<open>
  C1. For every flow list entry of the data model (its result sets deduplicated by
  filter key, as in every entry that flowListEntryFromFlow and
  updateFlowListEntryResultSet produce) and every result set:
  if some existing result set has the same (withType, withTag) pair as the new set's
  sourceQuery, updateFlowListEntryResultSet returns the entry with exactly one result
  set replaced by the new set, the one at the only position whose key matches; if no
  existing result set matches, the new set is appended. The result is deduplicated by
  filter key again.
\<close>

theorem update_replaces_exactly_one:
  assumes "distinct (map filterKey (resultSets fle))"
  shows "((\<exists>x \<in> set (resultSets fle). sameKey rs x) \<longrightarrow>
            (\<exists>i<length (resultSets fle).
               sameKey rs (resultSets fle ! i) \<and>
               (\<forall>j<length (resultSets fle). sameKey rs (resultSets fle ! j) \<longrightarrow> j = i) \<and>
               resultSets (updateFlowListEntryResultSet fle rs) = (resultSets fle)[i := rs])) \<and>
         ((\<forall>x \<in> set (resultSets fle). \<not> sameKey rs x) \<longrightarrow>
            resultSets (updateFlowListEntryResultSet fle rs) = resultSets fle @ [rs]) \<and>
         distinct (map filterKey (resultSets (updateFlowListEntryResultSet fle rs)))"
proof (intro conjI impI)
  assume ex: "\<exists>x \<in> set (resultSets fle). sameKey rs x"
  then have "filter (sameKey rs) (resultSets fle) \<noteq> []"
    by (simp add: filter_empty_conv)
  then have "1 \<le> length (filter (sameKey rs) (resultSets fle))"
    by (cases "filter (sameKey rs) (resultSets fle)") simp_all
  with distinct_keys_one_match [OF assms, of rs]
  have one: "length (filter (sameKey rs) (resultSets fle)) = 1" by simp
  from filter_one_update [OF one, of rs] obtain i where
    i: "i < length (resultSets fle)" "sameKey rs (resultSets fle ! i)" and
    m: "map (\<lambda>x. if sameKey rs x then rs else x) (resultSets fle) = (resultSets fle)[i := rs]"
    by blast
  from ex m have out: "resultSets (updateFlowListEntryResultSet fle rs) = (resultSets fle)[i := rs]"
    by (simp add: resultSets_update mergeInto_def)
  have only: "\<forall>j<length (resultSets fle). sameKey rs (resultSets fle ! j) \<longrightarrow> j = i"
    using distinct_keys_unique_match [OF assms _ i(1) _ i(2)] by blast
  from i out only
  show "\<exists>i<length (resultSets fle).
               sameKey rs (resultSets fle ! i) \<and>
               (\<forall>j<length (resultSets fle). sameKey rs (resultSets fle ! j) \<longrightarrow> j = i) \<and>
               resultSets (updateFlowListEntryResultSet fle rs) = (resultSets fle)[i := rs]"
    by blast
next
  assume "\<forall>x \<in> set (resultSets fle). \<not> sameKey rs x"
  then show "resultSets (updateFlowListEntryResultSet fle rs) = resultSets fle @ [rs]"
    by (simp add: resultSets_update mergeInto_def)
next
  from assms show "distinct (map filterKey (resultSets (updateFlowListEntryResultSet fle rs)))"
    by (simp add: resultSets_update distinct_keys_mergeInto)
qed

theorem update_replaces_exactly_one_witness:
  "apiEntry fle1 \<and>
   distinct (map filterKey (resultSets fle1)) \<and>
   sameKey rsNew (resultSets fle1 ! 0) \<and> \<not> sameKey rsNew (resultSets fle1 ! 1) \<and>
   resultSets (updateFlowListEntryResultSet fle1 rsNew) = (resultSets fle1)[0 := rsNew] \<and>
   resultSets (updateFlowListEntryResultSet fle1 rsNew) = [rsNew, rsB] \<and>
   resultSets (updateFlowListEntryResultSet fle1 rsOther) = [rsA, rsB, rsOther] \<and>
   distinct (map filterKey (resultSets (updateFlowListEntryResultSet fle1 rsNew)))"
proof -
  have built: "fle1 = updateFlowListEntryResultSet
      (updateFlowListEntryResultSet (flowListEntryFromFlow flow0) rsA) rsB"
    by (simp add: update_eq mergeInto_def flowListEntryFromFlow_def sameKey_def filterKey_def
        concrete_defs)
  have api: "apiEntry fle1"
    unfolding built by (intro apiEntry.intros)
  have dist: "distinct (map filterKey (resultSets fle1))"
    by (simp add: concrete_defs filterKey_def)
  have k0: "sameKey rsNew (resultSets fle1 ! 0)" and k1: "\<not> sameKey rsNew (resultSets fle1 ! 1)"
    by (simp_all add: concrete_defs sameKey_def filterKey_def)
  have len: "length (resultSets fle1) = 2" and xs: "resultSets fle1 = [rsA, rsB]"
    by (simp_all add: fle1_def)
  have some: "\<exists>x \<in> set (resultSets fle1). sameKey rsNew x"
    by (simp add: concrete_defs sameKey_def filterKey_def)
  have none: "\<forall>x \<in> set (resultSets fle1). \<not> sameKey rsOther x"
    by (simp add: concrete_defs sameKey_def filterKey_def)
  note new = update_replaces_exactly_one [OF dist, of rsNew]
  note other = update_replaces_exactly_one [OF dist, of rsOther]
  from new some obtain i where
    i: "i < length (resultSets fle1)" "sameKey rsNew (resultSets fle1 ! i)" and
    out: "resultSets (updateFlowListEntryResultSet fle1 rsNew) = (resultSets fle1)[i := rsNew]"
    by blast
  from i k1 len have "i = 0" by (cases i) auto
  with out have r0:
    "resultSets (updateFlowListEntryResultSet fle1 rsNew) = (resultSets fle1)[0 := rsNew]"
    by simp
  then have r1: "resultSets (updateFlowListEntryResultSet fle1 rsNew) = [rsNew, rsB]"
    by (simp add: xs)
  from other none xs have r2:
    "resultSets (updateFlowListEntryResultSet fle1 rsOther) = [rsA, rsB, rsOther]"
    by simp
  from new have r3: "distinct (map filterKey (resultSets (updateFlowListEntryResultSet fle1 rsNew)))"
    by blast
  from api dist k0 k1 r0 r1 r2 r3 show ?thesis by blast
qed

text \<open>
  C2. Applying updateFlowListEntryResultSet twice with the same result set yields the
  same entry as applying it once.
\<close>

theorem update_idempotent:
  "updateFlowListEntryResultSet (updateFlowListEntryResultSet fle rs) rs =
   updateFlowListEntryResultSet fle rs"
  by (simp add: update_eq mergeInto_idem)

text \<open>
  C9. After merging a result set \<open>rs\<close> into any entry, findFlowListEntryResultSet with
  the withType and withTag of \<open>rs\<close>'s sourceQuery returns \<open>rs\<close>.
\<close>

theorem find_after_update:
  "findFlowListEntryResultSet (updateFlowListEntryResultSet fle rs)
     (withType (sourceQuery rs)) (withTag (sourceQuery rs)) = Some rs"
proof -
  let ?P = "\<lambda>x. withType (sourceQuery x) = withType (sourceQuery rs) \<and>
                 withTag (sourceQuery x) = withTag (sourceQuery rs)"
  have P: "?P = sameKey rs" by (auto simp: sameKey_iff fun_eq_iff)
  have "List.find (sameKey rs) (mergeInto rs (resultSets fle)) = Some rs"
    by (rule find_first_match) (use mergeInto_has_match mergeInto_matches_are_new in blast)+
  then show ?thesis
    by (simp add: findFlowListEntryResultSet_def resultSets_update P)
qed

subsection \<open>Order and count\<close>

lemma replace_nth:
  "i < length xs \<Longrightarrow>
     map (\<lambda>x. if sameKey r x then r else x) xs ! i = (if sameKey r (xs ! i) then r else xs ! i)"
  by simp

lemma filter_others_replace:
  "filter (\<lambda>x. \<not> sameKey r x) (map (\<lambda>x. if sameKey r x then r else x) xs) =
   filter (\<lambda>x. \<not> sameKey r x) xs"
  by (induction xs) (auto simp: sameKey_refl)

lemma filter_others_mergeInto:
  "filter (\<lambda>x. \<not> sameKey r x) (mergeInto r xs) = filter (\<lambda>x. \<not> sameKey r x) xs"
  by (simp add: mergeInto_def filter_others_replace sameKey_refl)

lemma mergeInto_nth:
  "i < length xs \<Longrightarrow> mergeInto r xs ! i = (if sameKey r (xs ! i) then r else xs ! i)"
  by (auto simp: mergeInto_def nth_append)

lemma mergeInto_length:
  "length (mergeInto r xs) = (if \<exists>x \<in> set xs. sameKey r x then length xs else length xs + 1)"
  by (simp add: mergeInto_def)

text \<open>
  C10. updateFlowListEntryResultSet preserves order and count: at every position of
  the input the output holds the input's set when its key differs from the new set's,
  and the new set when it matches; the non-matching sets are the same, in the same
  order; the output has the length of the input when some set matches, and the input
  followed by the new set when none does. flowListEntryFromFlow produces an entry with
  no result sets, on which findFlowListEntryResultSet returns undefined for every key.
\<close>

theorem update_keeps_order_and_count:
  "(\<forall>i<length (resultSets fle).
      resultSets (updateFlowListEntryResultSet fle rs) ! i =
        (if sameKey rs (resultSets fle ! i) then rs else resultSets fle ! i)) \<and>
   filter (\<lambda>x. \<not> sameKey rs x) (resultSets (updateFlowListEntryResultSet fle rs)) =
     filter (\<lambda>x. \<not> sameKey rs x) (resultSets fle) \<and>
   ((\<exists>x \<in> set (resultSets fle). sameKey rs x) \<longrightarrow>
      length (resultSets (updateFlowListEntryResultSet fle rs)) = length (resultSets fle)) \<and>
   ((\<forall>x \<in> set (resultSets fle). \<not> sameKey rs x) \<longrightarrow>
      length (resultSets (updateFlowListEntryResultSet fle rs)) = length (resultSets fle) + 1 \<and>
      last (resultSets (updateFlowListEntryResultSet fle rs)) = rs \<and>
      butlast (resultSets (updateFlowListEntryResultSet fle rs)) = resultSets fle) \<and>
   resultSets (flowListEntryFromFlow fl) = [] \<and>
   findFlowListEntryResultSet (flowListEntryFromFlow fl) wType wTag = None"
proof (intro conjI allI impI)
  fix i assume "i < length (resultSets fle)"
  then show "resultSets (updateFlowListEntryResultSet fle rs) ! i =
        (if sameKey rs (resultSets fle ! i) then rs else resultSets fle ! i)"
    by (simp only: resultSets_update mergeInto_nth)
next
  show "filter (\<lambda>x. \<not> sameKey rs x) (resultSets (updateFlowListEntryResultSet fle rs)) =
     filter (\<lambda>x. \<not> sameKey rs x) (resultSets fle)"
    by (simp only: resultSets_update filter_others_mergeInto)
next
  assume "\<exists>x \<in> set (resultSets fle). sameKey rs x"
  then show "length (resultSets (updateFlowListEntryResultSet fle rs)) = length (resultSets fle)"
    by (simp add: resultSets_update mergeInto_length)
next
  assume none: "\<forall>x \<in> set (resultSets fle). \<not> sameKey rs x"
  then have m: "mergeInto rs (resultSets fle) = resultSets fle @ [rs]"
    by (simp add: mergeInto_def)
  show "length (resultSets (updateFlowListEntryResultSet fle rs)) = length (resultSets fle) + 1"
    by (simp add: resultSets_update m)
  show "last (resultSets (updateFlowListEntryResultSet fle rs)) = rs"
    by (simp add: resultSets_update m)
  show "butlast (resultSets (updateFlowListEntryResultSet fle rs)) = resultSets fle"
    by (simp add: resultSets_update m)
next
  show "resultSets (flowListEntryFromFlow fl) = []"
    by (simp add: flowListEntryFromFlow_def)
next
  show "findFlowListEntryResultSet (flowListEntryFromFlow fl) wType wTag = None"
    by (simp add: flowListEntryFromFlow_def findFlowListEntryResultSet_def)
qed

theorem update_keeps_order_and_count_witness:
  "sameKey rsNew (resultSets fle1 ! 0) \<and> \<not> sameKey rsNew (resultSets fle1 ! 1) \<and>
   resultSets (updateFlowListEntryResultSet fle1 rsNew) ! 0 = rsNew \<and>
   resultSets (updateFlowListEntryResultSet fle1 rsNew) ! 1 = rsB \<and>
   length (resultSets (updateFlowListEntryResultSet fle1 rsNew)) = 2 \<and>
   length (resultSets (updateFlowListEntryResultSet fle1 rsOther)) = 3 \<and>
   last (resultSets (updateFlowListEntryResultSet fle1 rsOther)) = rsOther \<and>
   butlast (resultSets (updateFlowListEntryResultSet fle1 rsOther)) = [rsA, rsB]"
proof -
  have k0: "sameKey rsNew (resultSets fle1 ! 0)"
    by (simp add: concrete_defs sameKey_def filterKey_def)
  have k1: "\<not> sameKey rsNew (resultSets fle1 ! 1)"
    by (simp add: concrete_defs sameKey_def filterKey_def)
  have some: "\<exists>x \<in> set (resultSets fle1). sameKey rsNew x"
    by (simp add: concrete_defs sameKey_def filterKey_def)
  have none: "\<forall>x \<in> set (resultSets fle1). \<not> sameKey rsOther x"
    by (simp add: concrete_defs sameKey_def filterKey_def)
  have len: "length (resultSets fle1) = 2" and xs: "resultSets fle1 = [rsA, rsB]"
    by (simp_all add: fle1_def)
  note new = update_keeps_order_and_count [of fle1 rsNew flow0 None None]
  note other = update_keeps_order_and_count [of fle1 rsOther flow0 None None]
  from new have nth:
    "\<forall>i<length (resultSets fle1).
      resultSets (updateFlowListEntryResultSet fle1 rsNew) ! i =
        (if sameKey rsNew (resultSets fle1 ! i) then rsNew else resultSets fle1 ! i)"
    by (rule conjunct1)
  from nth len k0 have r0: "resultSets (updateFlowListEntryResultSet fle1 rsNew) ! 0 = rsNew"
    by simp
  from nth len k1 have "resultSets (updateFlowListEntryResultSet fle1 rsNew) ! 1 =
      resultSets fle1 ! 1"
    by simp
  then have r1: "resultSets (updateFlowListEntryResultSet fle1 rsNew) ! 1 = rsB"
    by (simp add: xs)
  from new some len have r2: "length (resultSets (updateFlowListEntryResultSet fle1 rsNew)) = 2"
    by simp
  from other none len xs have r3:
    "length (resultSets (updateFlowListEntryResultSet fle1 rsOther)) = 3 \<and>
     last (resultSets (updateFlowListEntryResultSet fle1 rsOther)) = rsOther \<and>
     butlast (resultSets (updateFlowListEntryResultSet fle1 rsOther)) = [rsA, rsB]"
    by simp
  from k0 k1 r0 r1 r2 r3 show ?thesis by simp
qed

subsection \<open>The functions over the store\<close>

lemma push_array:
  "cellAt st a = Some (ArrayCell xs) \<Longrightarrow> push st a x = Some (st[a := ArrayCell (xs @ [x])])"
  by (simp add: push_def)

lemma cellAt_upd_same:
  "a < length st \<Longrightarrow> cellAt (st[a := c]) a = Some c"
  by (simp add: cellAt_def)

lemma cellAt_upd_other:
  "b \<noteq> a \<Longrightarrow> cellAt (st[a := c]) b = cellAt st b"
  by (simp add: cellAt_def)

lemma cellAt_Some_less: "cellAt st a = Some c \<Longrightarrow> a < length st"
  by (simp add: cellAt_def split: if_splits)

lemma updateLoopSt_Cons:
  "updateLoopSt r (x # xs) new (st, p) =
     (if sameKey r x
      then (case push st new r of
              None \<Rightarrow> None
            | Some st' \<Rightarrow> updateLoopSt r xs new (st', True))
      else (case push st new x of
              None \<Rightarrow> None
            | Some st' \<Rightarrow> updateLoopSt r xs new (st', p)))"
  by (simp add: sameKey_iff)

lemma updateLoopSt_eq:
  "cellAt st new = Some (ArrayCell acc) \<Longrightarrow>
     updateLoopSt r xs new (st, p) =
       Some (st[new := ArrayCell (fst (updateLoop r xs (acc, p)))], snd (updateLoop r xs (acc, p)))"
proof (induction xs arbitrary: st acc p)
  case Nil
  then have "st[new := ArrayCell acc] = st"
    by (simp add: cellAt_def list_update_same_conv split: if_splits)
  then show ?case by simp
next
  case (Cons x xs)
  from Cons.prems have less: "new < length st" by (rule cellAt_Some_less)
  show ?case
  proof (cases "sameKey r x")
    case True
    have c: "cellAt (st[new := ArrayCell (acc @ [r])]) new = Some (ArrayCell (acc @ [r]))"
      using less by (rule cellAt_upd_same)
    from True show ?thesis
      unfolding updateLoopSt_Cons updateLoop_Cons
      by (simp add: push_array [OF Cons.prems] Cons.IH [OF c])
  next
    case False
    have c: "cellAt (st[new := ArrayCell (acc @ [x])]) new = Some (ArrayCell (acc @ [x]))"
      using less by (rule cellAt_upd_same)
    from False show ?thesis
      unfolding updateLoopSt_Cons updateLoop_Cons
      by (simp add: push_array [OF Cons.prems] Cons.IH [OF c])
  qed
qed

lemma readEntry_cases:
  "readEntry st a = Some fle \<Longrightarrow>
     \<exists>arr. cellAt st a = Some (EntryCell (flow fle) arr) \<and>
           cellAt st arr = Some (ArrayCell (resultSets fle))"
  by (auto simp: readEntry_def split: option.splits cell.splits)

lemma updateSt_eq:
  assumes "readEntry st a = Some fle"
  shows "updateFlowListEntryResultSetSt st a rs =
     Some (st @ [ArrayCell (resultSets (updateFlowListEntryResultSet fle rs)),
                 EntryCell (flow fle) (length st)], Suc (length st))"
proof -
  from readEntry_cases [OF assms] obtain arr where
    a: "cellAt st a = Some (EntryCell (flow fle) arr)" and
    arr: "cellAt st arr = Some (ArrayCell (resultSets fle))"
    by blast
  let ?st1 = "st @ [ArrayCell []]"
  let ?new = "length st"
  have c1: "cellAt ?st1 ?new = Some (ArrayCell [])" by (simp add: cellAt_def)
  obtain ys p where lp: "updateLoop rs (resultSets fle) ([], False) = (ys, p)"
    by (cases "updateLoop rs (resultSets fle) ([], False)")
  have loop: "updateLoopSt rs (resultSets fle) ?new (?st1, False) =
      Some (st @ [ArrayCell ys], p)"
    by (simp add: updateLoopSt_eq [OF c1] lp)
  have c2: "cellAt (st @ [ArrayCell ys]) ?new = Some (ArrayCell ys)" by (simp add: cellAt_def)
  have fin: "(if \<not> p then push (st @ [ArrayCell ys]) ?new rs else Some (st @ [ArrayCell ys])) =
      Some (st @ [ArrayCell (if \<not> p then ys @ [rs] else ys)])"
    by (simp add: push_array [OF c2])
  have res: "resultSets (updateFlowListEntryResultSet fle rs) = (if \<not> p then ys @ [rs] else ys)"
    by (simp add: updateFlowListEntryResultSet_def lp)
  show ?thesis
    unfolding updateFlowListEntryResultSetSt_def
    by (simp add: a arr alloc_def loop fin res del: updateLoopSt.simps)
qed

lemma find_result:
  "(case List.find P xs of
      None \<Rightarrow> \<forall>r \<in> set xs. \<not> P r
    | Some r \<Rightarrow> r \<in> set xs \<and> P r)"
  by (induction xs) (auto split: option.splits)

lemma findSt_eq:
  "readEntry st a = Some fle \<Longrightarrow>
     findFlowListEntryResultSetSt st a wType wTag = Some (findFlowListEntryResultSet fle wType wTag)"
  by (auto simp: readEntry_def findFlowListEntryResultSetSt_def findFlowListEntryResultSet_def
      split: option.splits cell.splits)

lemma cellAt_append_old: "b < length st \<Longrightarrow> cellAt (st @ ys) b = cellAt st b"
  by (simp add: cellAt_def nth_append)

lemma readEntry_append_old:
  "readEntry st a = Some fle \<Longrightarrow> readEntry (st @ ys) a = Some fle"
proof -
  assume r: "readEntry st a = Some fle"
  from readEntry_cases [OF r] obtain arr where
    a: "cellAt st a = Some (EntryCell (flow fle) arr)" and
    arr: "cellAt st arr = Some (ArrayCell (resultSets fle))"
    by blast
  from a arr have "cellAt (st @ ys) a = Some (EntryCell (flow fle) arr)"
    "cellAt (st @ ys) arr = Some (ArrayCell (resultSets fle))"
    by (simp_all add: cellAt_append_old cellAt_Some_less)
  then show ?thesis by (simp add: readEntry_def)
qed

text \<open>
  C8. updateFlowListEntryResultSet and findFlowListEntryResultSet are pure. For an entry
  object at address \<open>a\<close> of any store: updateFlowListEntryResultSet returns a new
  object (at an address that was not in use) holding the merged entry; every cell of
  the store that existed before is unchanged, so the argument entry and its array read
  as before; the flow field of the result is the flow field of the input.
  findFlowListEntryResultSet only reads the store, and returns either undefined or a
  result set of the entry whose withType and withTag are the ones asked for.
\<close>

theorem update_and_find_leave_arguments:
  assumes "readEntry st a = Some fle"
  shows "(\<exists>st' a'. updateFlowListEntryResultSetSt st a rs = Some (st', a') \<and>
            (\<forall>b<length st. cellAt st' b = cellAt st b) \<and>
            length st \<le> a' \<and>
            readEntry st' a = Some fle \<and>
            readEntry st' a' = Some (updateFlowListEntryResultSet fle rs)) \<and>
         flow (updateFlowListEntryResultSet fle rs) = flow fle \<and>
         findFlowListEntryResultSetSt st a wType wTag =
           Some (findFlowListEntryResultSet fle wType wTag) \<and>
         (case findFlowListEntryResultSet fle wType wTag of
            None \<Rightarrow> \<forall>r \<in> set (resultSets fle).
              \<not> (withType (sourceQuery r) = wType \<and> withTag (sourceQuery r) = wTag)
          | Some r \<Rightarrow> r \<in> set (resultSets fle) \<and>
              withType (sourceQuery r) = wType \<and> withTag (sourceQuery r) = wTag)"
proof (intro conjI)
  let ?new = "updateFlowListEntryResultSet fle rs"
  let ?st' = "st @ [ArrayCell (resultSets ?new), EntryCell (flow fle) (length st)]"
  have fl: "flow ?new = flow fle" by (simp add: update_eq)
  have run: "updateFlowListEntryResultSetSt st a rs = Some (?st', Suc (length st))"
    using assms by (rule updateSt_eq)
  have frame: "\<forall>b<length st. cellAt ?st' b = cellAt st b"
    by (simp add: cellAt_append_old)
  have old: "readEntry ?st' a = Some fle"
    using assms by (rule readEntry_append_old)
  have "readEntry ?st' (Suc (length st)) = Some \<lparr>flow = flow fle, resultSets = resultSets ?new\<rparr>"
    by (simp add: readEntry_def cellAt_def nth_append)
  also have "\<lparr>flow = flow fle, resultSets = resultSets ?new\<rparr> = ?new"
    by (simp add: fl [symmetric])
  finally have new: "readEntry ?st' (Suc (length st)) = Some ?new" .
  from run frame old new
  show "\<exists>st' a'. updateFlowListEntryResultSetSt st a rs = Some (st', a') \<and>
            (\<forall>b<length st. cellAt st' b = cellAt st b) \<and>
            length st \<le> a' \<and>
            readEntry st' a = Some fle \<and>
            readEntry st' a' = Some (updateFlowListEntryResultSet fle rs)"
    by (intro exI [of _ ?st'] exI [of _ "Suc (length st)"]) simp
  show "flow ?new = flow fle" by (rule fl)
  show "findFlowListEntryResultSetSt st a wType wTag =
           Some (findFlowListEntryResultSet fle wType wTag)"
    using assms by (rule findSt_eq)
  show "case findFlowListEntryResultSet fle wType wTag of
            None \<Rightarrow> \<forall>r \<in> set (resultSets fle).
              \<not> (withType (sourceQuery r) = wType \<and> withTag (sourceQuery r) = wTag)
          | Some r \<Rightarrow> r \<in> set (resultSets fle) \<and>
              withType (sourceQuery r) = wType \<and> withTag (sourceQuery r) = wTag"
    unfolding findFlowListEntryResultSet_def by (rule find_result)
qed

theorem update_and_find_leave_arguments_witness:
  "readEntry store0 1 = Some fle1 \<and>
   (\<exists>st' a'. updateFlowListEntryResultSetSt store0 1 rsNew = Some (st', a') \<and>
      cellAt st' 0 = cellAt store0 0 \<and> cellAt st' 1 = cellAt store0 1 \<and>
      readEntry st' 1 = Some fle1 \<and>
      readEntry st' a' = Some (updateFlowListEntryResultSet fle1 rsNew)) \<and>
   flow (updateFlowListEntryResultSet fle1 rsNew) = flow0 \<and>
   findFlowListEntryResultSetSt store0 1 None None = Some (Some rsA) \<and>
   findFlowListEntryResultSet fle1 None None = Some rsA \<and>
   findFlowListEntryResultSet fle1 None (Some ''tag'') = None"
proof -
  have h: "readEntry store0 1 = Some fle1"
    by (simp add: readEntry_def cellAt_def store0_def fle1_def)
  have f1: "findFlowListEntryResultSet fle1 None None = Some rsA"
    by (simp add: findFlowListEntryResultSet_def concrete_defs)
  have f2: "findFlowListEntryResultSet fle1 None (Some ''tag'') = None"
    by (simp add: findFlowListEntryResultSet_def concrete_defs)
  have len: "length store0 = 2" by (simp add: store0_def)
  note t = update_and_find_leave_arguments [OF h, of rsNew None None]
  from t obtain st' a' where
    run: "updateFlowListEntryResultSetSt store0 1 rsNew = Some (st', a')" and
    frame: "\<forall>b<length store0. cellAt st' b = cellAt store0 b" and
    old: "readEntry st' 1 = Some fle1" and
    new: "readEntry st' a' = Some (updateFlowListEntryResultSet fle1 rsNew)"
    by blast
  from frame len have "cellAt st' 0 = cellAt store0 0" "cellAt st' 1 = cellAt store0 1"
    by simp_all
  with run old new have ex:
    "\<exists>st' a'. updateFlowListEntryResultSetSt store0 1 rsNew = Some (st', a') \<and>
      cellAt st' 0 = cellAt store0 0 \<and> cellAt st' 1 = cellAt store0 1 \<and>
      readEntry st' 1 = Some fle1 \<and>
      readEntry st' a' = Some (updateFlowListEntryResultSet fle1 rsNew)"
    by blast
  from t have fl: "flow (updateFlowListEntryResultSet fle1 rsNew) = flow0"
    by (simp add: fle1_def)
  from t f1 have fs: "findFlowListEntryResultSetSt store0 1 None None = Some (Some rsA)"
    by simp
  from h ex fl fs f1 f2 show ?thesis by blast
qed

section \<open>Properties of the report controller\<close>

subsection \<open>The handlers in closed form\<close>

lemmas ctl_defs = construct_def E0_def onParamsChange_def fetchData_def getProp_def
  DEFAULT_START_TIME_def DEFAULT_DURATION_def DEFAULT_CLIENT_LABEL_def MONTH_SECONDS_def
  settle_def reportLoaded_def watchStartTime_def watchDuration_def watchClientLabel_def
  refreshReport_def datetimeDescriptorLoaded_def durationDescriptorLoaded_def labelsLoaded_def

lemma fetchData_ctrl:
  "ctrl (fetchData w) =
     (if truthy (getProp (scope w) ''name'') then (ctrl w)\<lparr>state := ''LOADING''\<rparr> else ctrl w)"
  by (simp add: fetchData_def Let_def)

lemma fetchData_scope: "scope (fetchData w) = scope w"
  by (simp add: fetchData_def Let_def)

lemma fetchData_pending:
  "pending (fetchData w) =
     (if truthy (getProp (scope w) ''name'')
      then pending w @
        [(ApiGet (''stats/reports/'' @ toString (getProp (scope w) ''name''))
            (Some [''start_time'' \<mapsto> startTime (ctrl w), ''duration'' \<mapsto> duration (ctrl w),
                   ''client_label'' \<mapsto> clientLabel (ctrl w)]), ReportLoaded)]
      else pending w)"
  by (simp add: fetchData_def Let_def)

lemma onParamsChange_eq:
  "onParamsChange E w =
     (if truthy (getProp (scope w) ''name'') then fetchData (normalized E w) else normalized E w)"
  by (cases "getProp (scope w) ''startTime'' = Null";
      cases "getProp (scope w) ''duration'' = Null";
      cases "getProp (scope w) ''clientLabel'' = Null")
     (simp_all add: onParamsChange_def normalized_def Let_def)

lemma normalized_frame:
  "scope (normalized E w) = scope w" "pending (normalized E w) = pending w"
  "state (ctrl (normalized E w)) = state (ctrl w)"
  by (simp_all add: normalized_def)

lemma onParamsChange_startTime:
  "startTime (ctrl (onParamsChange E w)) = startTime (ctrl (normalized E w))"
  by (simp add: onParamsChange_eq fetchData_ctrl normalized_frame)

lemma onParamsChange_duration:
  "duration (ctrl (onParamsChange E w)) = duration (ctrl (normalized E w))"
  by (simp add: onParamsChange_eq fetchData_ctrl normalized_frame)

lemma onParamsChange_clientLabel:
  "clientLabel (ctrl (onParamsChange E w)) = clientLabel (ctrl (normalized E w))"
  by (simp add: onParamsChange_eq fetchData_ctrl normalized_frame)

lemmas onParamsChange_fields =
  onParamsChange_startTime onParamsChange_duration onParamsChange_clientLabel

subsection \<open>Parameter changes\<close>

text \<open>
  C3 (as amended). When onParamsChange_ runs with a bound parameter that is \<open>null\<close>,
  the stored value of that parameter becomes its default: the start time becomes
  DEFAULT_START_TIME, which is one month before the moment the script was loaded
  (that clock reading in milliseconds, less 2592000000, times 1000), the duration
  becomes 2592000 seconds, the client label becomes the empty string.
\<close>

theorem null_restores_load_time_default:
  "(getProp (scope w) ''startTime'' = Null \<longrightarrow>
      startTime (ctrl (onParamsChange E w)) = JNum (DEFAULT_START_TIME E)) \<and>
   DEFAULT_START_TIME E = (momentNow E - 2592000000) * 1000 \<and>
   (getProp (scope w) ''duration'' = Null \<longrightarrow>
      duration (ctrl (onParamsChange E w)) = JNum 2592000) \<and>
   (getProp (scope w) ''clientLabel'' = Null \<longrightarrow>
      clientLabel (ctrl (onParamsChange E w)) = JStr '''')"
  by (simp add: onParamsChange_fields normalized_def DEFAULT_START_TIME_def
      DEFAULT_DURATION_def DEFAULT_CLIENT_LABEL_def MONTH_SECONDS_def)

theorem null_restores_load_time_default_witness:
  "getProp (scope wNull) ''startTime'' = Null \<and> getProp (scope wNull) ''duration'' = Null \<and>
   getProp (scope wNull) ''clientLabel'' = Null \<and>
   startTime (ctrl wNull) = JNum 5 \<and> duration (ctrl wNull) = JNum 7 \<and>
   clientLabel (ctrl wNull) = JStr ''lbl'' \<and>
   startTime (ctrl (onParamsChange E0 wNull)) = JNum (- 2592000000000) \<and>
   duration (ctrl (onParamsChange E0 wNull)) = JNum 2592000 \<and>
   clientLabel (ctrl (onParamsChange E0 wNull)) = JStr ''''"
proof -
  have sc: "getProp (scope wNull) ''startTime'' = Null" "getProp (scope wNull) ''duration'' = Null"
    "getProp (scope wNull) ''clientLabel'' = Null"
    by (simp_all add: wNull_def getProp_def)
  have old: "startTime (ctrl wNull) = JNum 5" "duration (ctrl wNull) = JNum 7"
    "clientLabel (ctrl wNull) = JStr ''lbl''"
    by (simp_all add: wNull_def wSet_def ctl_defs Let_def)
  have m: "momentNow E0 = 0" by (simp add: E0_def)
  from null_restores_load_time_default [of wNull E0] sc m
  have "startTime (ctrl (onParamsChange E0 wNull)) = JNum (- 2592000000000)"
    "duration (ctrl (onParamsChange E0 wNull)) = JNum 2592000"
    "clientLabel (ctrl (onParamsChange E0 wNull)) = JStr ''''"
    by simp_all
  with sc old show ?thesis by simp
qed

text \<open>
  C3 as stated (one month before now) fails whenever the handler does not run at the
  moment the script was loaded. Script loaded at clock reading 0; the parent sets the
  parameters and later, one day after the load (clock reading 86400000), clears the
  start time. The stored start time is one month before the load, not one month before
  that moment.
\<close>

theorem start_time_default_is_stale_counterexample:
  "momentNow E0 = 0 \<and>
   map_option (startTime \<circ> ctrl)
     (run E0 (traceSet @ [ScopeAssign ''startTime'' Null, ParamsChange])
        (construct E0 Map.empty)) = Some (JNum (- 2592000000000)) \<and>
   JNum (- 2592000000000) \<noteq> JNum ((86400000 - MONTH_SECONDS * 1000) * 1000)"
  by (simp add: traceSet_def ctl_defs Let_def)

text \<open>
  C4 (as amended). When onParamsChange_ runs with a bound parameter that is missing
  (\<open>undefined\<close>) or falsy and not \<open>null\<close> (0, \<open>NaN\<close>, the empty string,
  \<open>false\<close>), the stored value of that parameter is left as it is; it is the default
  only as long as no other value has been stored. A truthy value is stored as it is,
  whatever its type. On a controller that has just been constructed with no parameter
  bound, the three stored values are the defaults. The handler has no failing branch:
  it returns a world for every world.
\<close>

theorem falsy_parameter_keeps_stored_value:
  "(\<not> truthy (getProp (scope w) ''startTime'') \<and> getProp (scope w) ''startTime'' \<noteq> Null \<longrightarrow>
      startTime (ctrl (onParamsChange E w)) = startTime (ctrl w)) \<and>
   (\<not> truthy (getProp (scope w) ''duration'') \<and> getProp (scope w) ''duration'' \<noteq> Null \<longrightarrow>
      duration (ctrl (onParamsChange E w)) = duration (ctrl w)) \<and>
   (\<not> truthy (getProp (scope w) ''clientLabel'') \<and> getProp (scope w) ''clientLabel'' \<noteq> Null \<longrightarrow>
      clientLabel (ctrl (onParamsChange E w)) = clientLabel (ctrl w)) \<and>
   (truthy (getProp (scope w) ''startTime'') \<longrightarrow>
      startTime (ctrl (onParamsChange E w)) = getProp (scope w) ''startTime'') \<and>
   (truthy (getProp (scope w) ''duration'') \<longrightarrow>
      duration (ctrl (onParamsChange E w)) = getProp (scope w) ''duration'') \<and>
   (truthy (getProp (scope w) ''clientLabel'') \<longrightarrow>
      clientLabel (ctrl (onParamsChange E w)) = getProp (scope w) ''clientLabel'') \<and>
   startTime (ctrl (onParamsChange E (construct E Map.empty))) = JNum (DEFAULT_START_TIME E) \<and>
   duration (ctrl (onParamsChange E (construct E Map.empty))) = JNum DEFAULT_DURATION \<and>
   clientLabel (ctrl (onParamsChange E (construct E Map.empty))) = JStr DEFAULT_CLIENT_LABEL"
proof -
  have n: "\<And>v. truthy v \<Longrightarrow> v \<noteq> Null" by auto
  have e: "\<And>k. getProp (scope (construct E Map.empty)) k = Undefined"
    by (simp add: construct_def getProp_def)
  show ?thesis
    by (simp add: onParamsChange_fields normalized_def n e) (simp add: construct_def)
qed

theorem falsy_parameter_keeps_stored_value_witness:
  "getProp (scope wUnset) ''startTime'' = Undefined \<and>
   getProp (scope wUnset) ''duration'' = JNum 0 \<and>
   getProp (scope wUnset) ''clientLabel'' = JStr '''' \<and>
   startTime (ctrl (onParamsChange E0 wUnset)) = JNum 5 \<and>
   duration (ctrl (onParamsChange E0 wUnset)) = JNum 7 \<and>
   clientLabel (ctrl (onParamsChange E0 wUnset)) = JStr ''lbl'' \<and>
   startTime (ctrl (onParamsChange E0 wInvalid)) = JStr ''abc'' \<and>
   duration (ctrl (onParamsChange E0 wInvalid)) = JBool True \<and>
   clientLabel (ctrl (onParamsChange E0 wInvalid)) = JNum 3"
proof -
  have sc: "getProp (scope wUnset) ''startTime'' = Undefined"
    "getProp (scope wUnset) ''duration'' = JNum 0"
    "getProp (scope wUnset) ''clientLabel'' = JStr ''''"
    by (simp_all add: wUnset_def getProp_def)
  have old: "startTime (ctrl wUnset) = JNum 5" "duration (ctrl wUnset) = JNum 7"
    "clientLabel (ctrl wUnset) = JStr ''lbl''"
    by (simp_all add: wUnset_def wSet_def ctl_defs Let_def)
  have sc': "getProp (scope wInvalid) ''startTime'' = JStr ''abc''"
    "getProp (scope wInvalid) ''duration'' = JBool True"
    "getProp (scope wInvalid) ''clientLabel'' = JNum 3"
    by (simp_all add: wInvalid_def getProp_def)
  from falsy_parameter_keeps_stored_value [of wUnset E0] sc old
  have a: "startTime (ctrl (onParamsChange E0 wUnset)) = JNum 5"
    "duration (ctrl (onParamsChange E0 wUnset)) = JNum 7"
    "clientLabel (ctrl (onParamsChange E0 wUnset)) = JStr ''lbl''"
    by simp_all
  from falsy_parameter_keeps_stored_value [of wInvalid E0] sc'
  have b: "startTime (ctrl (onParamsChange E0 wInvalid)) = JStr ''abc''"
    "duration (ctrl (onParamsChange E0 wInvalid)) = JBool True"
    "clientLabel (ctrl (onParamsChange E0 wInvalid)) = JNum 3"
    by simp_all
  from sc a b show ?thesis by simp
qed

text \<open>
  C4 as stated (a missing or invalid parameter falls back to the default) fails once a
  value has been stored: the parent sets the start time to 5, then unsets it, and the
  stored start time is still 5. An invalid value such as the string \<open>'abc'\<close> is stored
  as the start time.
\<close>

theorem undefined_parameter_keeps_old_value_counterexample:
  "map_option (startTime \<circ> ctrl)
     (run E0 (traceSet @ [ScopeAssign ''startTime'' Undefined, ParamsChange])
        (construct E0 Map.empty)) = Some (JNum 5) \<and>
   JNum 5 \<noteq> JNum (DEFAULT_START_TIME E0) \<and>
   map_option (startTime \<circ> ctrl)
     (run E0 [ScopeAssign ''startTime'' (JStr ''abc''), ParamsChange]
        (construct E0 Map.empty)) = Some (JStr ''abc'')"
  by (simp add: traceSet_def ctl_defs Let_def)

subsection \<open>Fetching a report\<close>

lemma onParamsChange_pending:
  "pending (onParamsChange E w) =
     (if truthy (getProp (scope w) ''name'')
      then pending w @
        [(ApiGet (''stats/reports/'' @ toString (getProp (scope w) ''name''))
            (Some [''start_time'' \<mapsto> startTime (ctrl (onParamsChange E w)),
                   ''duration'' \<mapsto> duration (ctrl (onParamsChange E w)),
                   ''client_label'' \<mapsto> clientLabel (ctrl (onParamsChange E w))]), ReportLoaded)]
      else pending w)"
  by (simp add: onParamsChange_fields)
     (simp add: onParamsChange_eq fetchData_pending normalized_frame)

lemma onParamsChange_state:
  "state (ctrl (onParamsChange E w)) =
     (if truthy (getProp (scope w) ''name'') then ''LOADING'' else state (ctrl w))"
  by (simp add: onParamsChange_eq fetchData_ctrl normalized_frame)

text \<open>
  C5. For a report name \<open>X\<close> that is not empty, fetchData_ sets the state to LOADING
  and issues one GET request to \<open>stats/reports/X\<close> whose parameters \<open>start_time\<close>,
  \<open>duration\<close> and \<open>client_label\<close> are the controller's current values (after
  onParamsChange_, the values it has just stored). Any truthy name sets the state to
  LOADING and issues one request. When the name is not truthy, neither fetchData_ nor
  onParamsChange_ issues a request or changes the state. When the request is resolved,
  its callback runs on the response: for a response of the interface, whose stripped
  description has a type to read, it stores the type-stripped data and description and
  the title, and then sets the state to LOADED. (For a response whose stripped
  description is \<open>undefined\<close> or \<open>null\<close>, the read of the type throws after the data
  and the description are stored, and the state is left as it was.)
\<close>

theorem fetch_requests_report:
  "(getProp (scope w) ''name'' = JStr X \<and> X \<noteq> [] \<longrightarrow>
      fetchData w =
        w\<lparr>ctrl := (ctrl w)\<lparr>state := ''LOADING''\<rparr>,
          pending := pending w @
            [(ApiGet (''stats/reports/'' @ X)
                (Some [''start_time'' \<mapsto> startTime (ctrl w), ''duration'' \<mapsto> duration (ctrl w),
                       ''client_label'' \<mapsto> clientLabel (ctrl w)]), ReportLoaded)]\<rparr> \<and>
      state (ctrl (onParamsChange E w)) = ''LOADING'' \<and>
      pending (onParamsChange E w) = pending w @
        [(ApiGet (''stats/reports/'' @ X)
            (Some [''start_time'' \<mapsto> startTime (ctrl (onParamsChange E w)),
                   ''duration'' \<mapsto> duration (ctrl (onParamsChange E w)),
                   ''client_label'' \<mapsto> clientLabel (ctrl (onParamsChange E w))]), ReportLoaded)]) \<and>
   (truthy (getProp (scope w) ''name'') \<longrightarrow>
      state (ctrl (fetchData w)) = ''LOADING'' \<and>
      map snd (pending (fetchData w)) = map snd (pending w) @ [ReportLoaded] \<and>
      state (ctrl (onParamsChange E w)) = ''LOADING'' \<and>
      map snd (pending (onParamsChange E w)) = map snd (pending w) @ [ReportLoaded]) \<and>
   (\<not> truthy (getProp (scope w) ''name'') \<longrightarrow>
      fetchData w = w \<and>
      pending (onParamsChange E w) = pending w \<and>
      state (ctrl (onParamsChange E w)) = state (ctrl w)) \<and>
   (i < length (pending w) \<and> snd (pending w ! i) = ReportLoaded \<longrightarrow>
      exec E (Resolve i (ReportResponse d e)) w = Some (fst (reportLoaded E d e (settle i w)))) \<and>
   (typeProperty E (stripTypeInfo E e) = Some t \<longrightarrow>
      reportLoaded E d e w =
        (w\<lparr>ctrl := (ctrl w)\<lparr>reportData := Some (stripTypeInfo E d),
                              reportDesc := Some (stripTypeInfo E e),
                              titleCasedType := Some (upperCaseToTitleCase E t),
                              state := ''LOADED''\<rparr>\<rparr>, None)) \<and>
   (typeProperty E (stripTypeInfo E e) = None \<longrightarrow>
      reportLoaded E d e w =
        (w\<lparr>ctrl := (ctrl w)\<lparr>reportData := Some (stripTypeInfo E d),
                              reportDesc := Some (stripTypeInfo E e)\<rparr>\<rparr>, Some TypeError))"
proof (intro conjI impI)
  assume n: "getProp (scope w) ''name'' = JStr X \<and> X \<noteq> []"
  then show "fetchData w =
        w\<lparr>ctrl := (ctrl w)\<lparr>state := ''LOADING''\<rparr>,
          pending := pending w @
            [(ApiGet (''stats/reports/'' @ X)
                (Some [''start_time'' \<mapsto> startTime (ctrl w), ''duration'' \<mapsto> duration (ctrl w),
                       ''client_label'' \<mapsto> clientLabel (ctrl w)]), ReportLoaded)]\<rparr>"
    by (simp add: fetchData_def Let_def)
  from n show "state (ctrl (onParamsChange E w)) = ''LOADING''"
    by (simp add: onParamsChange_state)
  from n have t: "truthy (getProp (scope w) ''name'')"
    and s: "toString (getProp (scope w) ''name'') = X"
    by simp_all
  from t show "pending (onParamsChange E w) = pending w @
        [(ApiGet (''stats/reports/'' @ X)
            (Some [''start_time'' \<mapsto> startTime (ctrl (onParamsChange E w)),
                   ''duration'' \<mapsto> duration (ctrl (onParamsChange E w)),
                   ''client_label'' \<mapsto> clientLabel (ctrl (onParamsChange E w))]), ReportLoaded)]"
    by (subst onParamsChange_pending) (simp only: if_True s)
next
  assume t: "truthy (getProp (scope w) ''name'')"
  then show "state (ctrl (fetchData w)) = ''LOADING''"
    by (simp add: fetchData_ctrl)
  from t show "map snd (pending (fetchData w)) = map snd (pending w) @ [ReportLoaded]"
    by (simp add: fetchData_pending)
  from t show "state (ctrl (onParamsChange E w)) = ''LOADING''"
    by (simp add: onParamsChange_state)
  from t show "map snd (pending (onParamsChange E w)) = map snd (pending w) @ [ReportLoaded]"
    by (subst onParamsChange_pending) simp
next
  assume f: "\<not> truthy (getProp (scope w) ''name'')"
  then show "fetchData w = w" by (simp add: fetchData_def)
  from f show "pending (onParamsChange E w) = pending w"
    by (subst onParamsChange_pending) (simp only: if_False)
  from f show "state (ctrl (onParamsChange E w)) = state (ctrl w)"
    by (simp add: onParamsChange_state)
next
  assume "i < length (pending w) \<and> snd (pending w ! i) = ReportLoaded"
  then show "exec E (Resolve i (ReportResponse d e)) w =
      Some (fst (reportLoaded E d e (settle i w)))"
    by simp
next
  assume "typeProperty E (stripTypeInfo E e) = Some t"
  then show "reportLoaded E d e w =
        (w\<lparr>ctrl := (ctrl w)\<lparr>reportData := Some (stripTypeInfo E d),
                              reportDesc := Some (stripTypeInfo E e),
                              titleCasedType := Some (upperCaseToTitleCase E t),
                              state := ''LOADED''\<rparr>\<rparr>, None)"
    by (simp add: reportLoaded_def)
next
  assume "typeProperty E (stripTypeInfo E e) = None"
  then show "reportLoaded E d e w =
        (w\<lparr>ctrl := (ctrl w)\<lparr>reportData := Some (stripTypeInfo E d),
                              reportDesc := Some (stripTypeInfo E e)\<rparr>\<rparr>, Some TypeError)"
    by (simp add: reportLoaded_def)
qed

theorem fetch_requests_report_witness:
  "getProp (scope wNamed) ''name'' = JStr ''X'' \<and>
   state (ctrl wNamed) = ''INITIAL'' \<and>
   state (ctrl (fetchData wNamed)) = ''LOADING'' \<and>
   pending (fetchData wNamed) ! 2 =
     (ApiGet ''stats/reports/X''
        (Some [''start_time'' \<mapsto> JNum (- 2592000000000), ''duration'' \<mapsto> JNum 2592000,
               ''client_label'' \<mapsto> JStr '''']), ReportLoaded) \<and>
   typeProperty E0 (stripTypeInfo E0 ''CLIENT_ACTIVITY'') = Some (JStr ''CLIENT_ACTIVITY'') \<and>
   map_option (state \<circ> ctrl)
     (exec E0 (Resolve 2 (ReportResponse ''data'' ''CLIENT_ACTIVITY'')) (fetchData wNamed)) =
     Some ''LOADED'' \<and>
   typeProperty E0 (stripTypeInfo E0 []) = None \<and>
   map_option (state \<circ> ctrl)
     (exec E0 (Resolve 2 (ReportResponse ''data'' [])) (fetchData wNamed)) = Some ''LOADING'' \<and>
   fetchData (construct E0 Map.empty) = construct E0 Map.empty \<and>
   pending (onParamsChange E0 (construct E0 Map.empty)) = pending (construct E0 Map.empty)"
proof -
  have n: "getProp (scope wNamed) ''name'' = JStr ''X''"
    by (simp add: wNamed_def construct_def getProp_def)
  have s0: "state (ctrl wNamed) = ''INITIAL''"
    by (simp add: wNamed_def construct_def)
  have f: "\<not> truthy (getProp (scope (construct E0 Map.empty)) ''name'')"
    by (simp add: construct_def getProp_def)
  have c: "startTime (ctrl wNamed) = JNum (- 2592000000000)"
    "duration (ctrl wNamed) = JNum 2592000" "clientLabel (ctrl wNamed) = JStr ''''"
    "length (pending wNamed) = 2"
    by (simp_all add: wNamed_def ctl_defs)
  have ty: "typeProperty E0 (stripTypeInfo E0 ''CLIENT_ACTIVITY'') = Some (JStr ''CLIENT_ACTIVITY'')"
    and tn: "typeProperty E0 (stripTypeInfo E0 []) = None"
    by (simp_all add: E0_def)
  note t = fetch_requests_report [of wNamed "''X''" E0]
  from t n have eq: "fetchData wNamed =
        wNamed\<lparr>ctrl := (ctrl wNamed)\<lparr>state := ''LOADING''\<rparr>,
          pending := pending wNamed @
            [(ApiGet (''stats/reports/'' @ ''X'')
                (Some [''start_time'' \<mapsto> startTime (ctrl wNamed),
                       ''duration'' \<mapsto> duration (ctrl wNamed),
                       ''client_label'' \<mapsto> clientLabel (ctrl wNamed)]), ReportLoaded)]\<rparr>"
    by simp
  have s1: "state (ctrl (fetchData wNamed)) = ''LOADING''"
    by (subst eq) simp
  have p: "pending (fetchData wNamed) ! 2 =
     (ApiGet ''stats/reports/X''
        (Some [''start_time'' \<mapsto> JNum (- 2592000000000), ''duration'' \<mapsto> JNum 2592000,
               ''client_label'' \<mapsto> JStr '''']), ReportLoaded)"
    by (subst eq) (simp add: c nth_append)
  have l: "length (pending (fetchData wNamed)) = 3"
    by (subst eq) (simp add: c)
  have s1': "state (ctrl (settle 2 (fetchData wNamed))) = ''LOADING''"
    using s1 by (simp add: settle_def)
  note ok = fetch_requests_report
    [of "fetchData wNamed" "''X''" E0 2 "''data''" "''CLIENT_ACTIVITY''" "JStr ''CLIENT_ACTIVITY''"]
  note ok' = fetch_requests_report
    [of "settle 2 (fetchData wNamed)" "''X''" E0 2 "''data''" "''CLIENT_ACTIVITY''"
      "JStr ''CLIENT_ACTIVITY''"]
  note bad = fetch_requests_report [of "fetchData wNamed" "''X''" E0 2 "''data''" "[]"]
  note bad' = fetch_requests_report [of "settle 2 (fetchData wNamed)" "''X''" E0 2 "''data''" "[]"]
  from ok p l have "exec E0 (Resolve 2 (ReportResponse ''data'' ''CLIENT_ACTIVITY'')) (fetchData wNamed) =
      Some (fst (reportLoaded E0 ''data'' ''CLIENT_ACTIVITY'' (settle 2 (fetchData wNamed))))"
    by simp
  moreover from ok' ty
  have "state (ctrl (fst (reportLoaded E0 ''data'' ''CLIENT_ACTIVITY'' (settle 2 (fetchData wNamed))))) =
      ''LOADED''"
    by simp
  ultimately have s2: "map_option (state \<circ> ctrl)
     (exec E0 (Resolve 2 (ReportResponse ''data'' ''CLIENT_ACTIVITY'')) (fetchData wNamed)) =
     Some ''LOADED''"
    by simp
  from bad p l have "exec E0 (Resolve 2 (ReportResponse ''data'' [])) (fetchData wNamed) =
      Some (fst (reportLoaded E0 ''data'' [] (settle 2 (fetchData wNamed))))"
    by simp
  moreover from bad' tn s1'
  have "state (ctrl (fst (reportLoaded E0 ''data'' [] (settle 2 (fetchData wNamed))))) = ''LOADING''"
    by simp
  ultimately have s3: "map_option (state \<circ> ctrl)
     (exec E0 (Resolve 2 (ReportResponse ''data'' [])) (fetchData wNamed)) = Some ''LOADING''"
    by simp
  from fetch_requests_report [of "construct E0 Map.empty" "''X''" E0] f
  have e: "fetchData (construct E0 Map.empty) = construct E0 Map.empty"
    "pending (onParamsChange E0 (construct E0 Map.empty)) = pending (construct E0 Map.empty)"
    by blast+
  from n s0 s1 p ty s2 tn s3 e show ?thesis by blast
qed

subsection \<open>Failed requests\<close>

lemma deliver_state:
  "deliver E cb p w = Some w' \<Longrightarrow> state (ctrl w') = state (ctrl w) \<or> state (ctrl w') = ''LOADED''"
  by (cases "(E, cb, p, w)" rule: deliver.cases)
     (auto simp: reportLoaded_def labelsLoaded_def datetimeDescriptorLoaded_def
        durationDescriptorLoaded_def Let_def split: option.splits)

lemma settle_frame: "ctrl (settle i w) = ctrl w" "scope (settle i w) = scope w"
  by (simp_all add: settle_def)

lemma refreshReport_frame:
  "ctrl (fst (refreshReport w)) = ctrl w" "pending (fst (refreshReport w)) = pending w"
  by (simp_all add: refreshReport_def Let_def split: option.splits)

lemma exec_state:
  "exec E ev w = Some w' \<Longrightarrow>
     state (ctrl w') = state (ctrl w) \<or> state (ctrl w') = ''LOADING'' \<or> state (ctrl w') = ''LOADED''"
proof (cases ev)
  case ParamsChange
  assume "exec E ev w = Some w'"
  with ParamsChange show ?thesis by (auto simp: onParamsChange_state)
next
  case (Resolve i p)
  assume "exec E ev w = Some w'"
  with Resolve have "deliver E (snd (pending w ! i)) p (settle i w) = Some w'"
    by (simp split: if_splits)
  from deliver_state [OF this] show ?thesis unfolding settle_frame by blast
next
  case RefreshReport
  assume "exec E ev w = Some w'"
  with RefreshReport show ?thesis by (auto simp: refreshReport_frame)
qed (auto simp: watchStartTime_def watchDuration_def watchClientLabel_def settle_def
      split: option.splits if_splits)

lemma reachable_state:
  "reachable E w \<Longrightarrow> state (ctrl w) \<in> {''INITIAL'', ''LOADING'', ''LOADED''}"
proof (induction rule: reachable.induct)
  case (constructed sc)
  show ?case by (simp add: construct_def)
next
  case (step w ev w')
  from exec_state [OF step.hyps(2)] step.IH show ?case by auto
qed

text \<open>
  C6 (as amended). A failed request causes no state transition at all: the controller
  and the scope are exactly as before, only the request is no longer in flight. So the
  state stays LOADING when it was LOADING, as it is when the request fails before any
  other response arrives. In every reachable world the state is one of INITIAL, LOADING
  and LOADED: there is no error value.
\<close>

theorem failed_request_is_no_transition:
  assumes "reachable E w"
  shows "state (ctrl w) \<in> {''INITIAL'', ''LOADING'', ''LOADED''} \<and>
    (i < length (pending w) \<longrightarrow>
       exec E (Reject i) w = Some (w\<lparr>pending := take i (pending w) @ drop (Suc i) (pending w)\<rparr>) \<and>
       map_option ctrl (exec E (Reject i) w) = Some (ctrl w) \<and>
       map_option scope (exec E (Reject i) w) = Some (scope w)) \<and>
    (truthy (getProp (scope w) ''name'') \<longrightarrow>
       map_option (state \<circ> ctrl) (exec E (Reject (length (pending w))) (fetchData w)) =
         Some ''LOADING'')"
proof (intro conjI impI)
  show "state (ctrl w) \<in> {''INITIAL'', ''LOADING'', ''LOADED''}"
    using assms by (rule reachable_state)
next
  assume i: "i < length (pending w)"
  then show "exec E (Reject i) w =
      Some (w\<lparr>pending := take i (pending w) @ drop (Suc i) (pending w)\<rparr>)"
    by (simp add: settle_def)
  from i show "map_option ctrl (exec E (Reject i) w) = Some (ctrl w)"
    by (simp add: settle_frame)
  from i show "map_option scope (exec E (Reject i) w) = Some (scope w)"
    by (simp add: settle_frame)
next
  assume "truthy (getProp (scope w) ''name'')"
  then show "map_option (state \<circ> ctrl) (exec E (Reject (length (pending w))) (fetchData w)) =
         Some ''LOADING''"
    by (simp add: fetchData_pending fetchData_ctrl settle_frame)
qed

theorem failed_request_is_no_transition_witness:
  "reachable E0 wFetching \<and> state (ctrl wFetching) = ''LOADING'' \<and>
   length (pending wFetching) = 3 \<and>
   map_option ctrl (exec E0 (Reject 2) wFetching) = Some (ctrl wFetching) \<and>
   map_option (state \<circ> ctrl) (exec E0 (Reject 2) wFetching) = Some ''LOADING'' \<and>
   map_option (state \<circ> ctrl) (exec E0 (Reject 3) (fetchData wFetching)) = Some ''LOADING''"
proof -
  have "reachable E0 wNamed" unfolding wNamed_def by (rule reachable.constructed)
  moreover have "exec E0 ParamsChange wNamed = Some wFetching" by (simp add: wFetching_def)
  ultimately have r: "reachable E0 wFetching" by (rule reachable.step)
  have s: "state (ctrl wFetching) = ''LOADING''" and l: "length (pending wFetching) = 3"
    and n: "truthy (getProp (scope wFetching) ''name'')"
    by (simp_all add: wFetching_def wNamed_def ctl_defs Let_def)
  note t = failed_request_is_no_transition [OF r, of 2]
  from t l have c: "map_option ctrl (exec E0 (Reject 2) wFetching) = Some (ctrl wFetching)"
    by simp
  from c obtain x where x: "exec E0 (Reject 2) wFetching = Some x" "ctrl x = ctrl wFetching"
    by (auto simp: map_option_case split: option.splits)
  have c': "map_option (state \<circ> ctrl) (exec E0 (Reject 2) wFetching) = Some ''LOADING''"
    by (simp only: x s option.map comp_apply)
  from t l n have c'': "map_option (state \<circ> ctrl) (exec E0 (Reject 3) (fetchData wFetching)) =
      Some ''LOADING''"
    by simp
  from r s l c c' c'' show ?thesis by blast
qed

text \<open>
  C6 as stated (for every fetch whose request fails, the state remains LOADING) fails
  when two fetches are in flight: the name is set, then the start time, each change
  issuing a request; the first is resolved, which sets the state to LOADED; then the
  second is rejected, and the state is LOADED, not LOADING.
\<close>

theorem failed_request_after_other_response_counterexample:
  "map_option (state \<circ> ctrl) (run E0 (take 4 traceTwoFetches) (construct E0 Map.empty)) =
     Some ''LOADING'' \<and>
   map_option (map snd \<circ> pending) (run E0 (take 4 traceTwoFetches) (construct E0 Map.empty)) =
     Some [DatetimeDescriptorLoaded, LabelsLoaded, ReportLoaded, ReportLoaded] \<and>
   map_option (state \<circ> ctrl) (run E0 (take 5 traceTwoFetches) (construct E0 Map.empty)) =
     Some ''LOADED'' \<and>
   map_option (state \<circ> ctrl) (run E0 traceTwoFetches (construct E0 Map.empty)) =
     Some ''LOADED''"
  by (simp add: traceTwoFetches_def ctl_defs Let_def)

subsection \<open>Refreshing\<close>

text \<open>
  C7 (as amended). Once typedStartTime and typedDuration are both set (both descriptors
  have arrived), refreshReport assigns the \<open>value\<close> of typedStartTime, the \<open>value\<close> of
  typedDuration and modelClientLabel to the scope parameters \<open>startTime\<close>,
  \<open>duration\<close> and \<open>clientLabel\<close>, and nothing else: the scope's \<open>name\<close> is as
  before. While typedStartTime is not set it throws a TypeError and assigns nothing;
  while typedStartTime is set and typedDuration is not, it assigns \<open>startTime\<close> only
  and then throws. In every case it leaves the controller unchanged and issues no
  request; a fetch can only follow from the watch group calling onParamsChange_.
\<close>

theorem refresh_copies_edits_to_scope:
  "(typedStartTime (ctrl w) = Some tst \<and> typedDuration (ctrl w) = Some td \<longrightarrow>
      refreshReport w =
        (w\<lparr>scope := (scope w)(''startTime'' \<mapsto> getProp tst ''value'',
                              ''duration'' \<mapsto> getProp td ''value'',
                              ''clientLabel'' \<mapsto> modelClientLabel (ctrl w))\<rparr>, None) \<and>
      getProp (scope (fst (refreshReport w))) ''name'' = getProp (scope w) ''name'') \<and>
   (typedStartTime (ctrl w) = None \<longrightarrow> refreshReport w = (w, Some TypeError)) \<and>
   (typedStartTime (ctrl w) = Some tst \<and> typedDuration (ctrl w) = None \<longrightarrow>
      refreshReport w =
        (w\<lparr>scope := (scope w)(''startTime'' \<mapsto> getProp tst ''value'')\<rparr>, Some TypeError)) \<and>
   ctrl (fst (refreshReport w)) = ctrl w \<and>
   pending (fst (refreshReport w)) = pending w"
  by (simp add: refreshReport_frame) (simp add: refreshReport_def Let_def getProp_def)

theorem refresh_copies_edits_to_scope_witness:
  "typedStartTime (ctrl wEdited) = Some (descriptor0(''value'' \<mapsto> JNum 111)) \<and>
   typedDuration (ctrl wEdited) = Some (descriptor0(''value'' \<mapsto> JNum 222)) \<and>
   modelClientLabel (ctrl wEdited) = JStr ''srv'' \<and>
   snd (refreshReport wEdited) = None \<and>
   getProp (scope (fst (refreshReport wEdited))) ''startTime'' = JNum 111 \<and>
   getProp (scope (fst (refreshReport wEdited))) ''duration'' = JNum 222 \<and>
   getProp (scope (fst (refreshReport wEdited))) ''clientLabel'' = JStr ''srv'' \<and>
   ctrl (fst (refreshReport wEdited)) = ctrl wEdited \<and>
   pending (fst (refreshReport wEdited)) = pending wEdited \<and>
   typedStartTime (ctrl wFresh) = None \<and>
   refreshReport wFresh = (wFresh, Some TypeError) \<and>
   typedStartTime (ctrl wHalf) = Some (descriptor0(''value'' \<mapsto> JNum 111)) \<and>
   typedDuration (ctrl wHalf) = None \<and>
   refreshReport wHalf = (wHalf\<lparr>scope := (scope wHalf)(''startTime'' \<mapsto> JNum 111)\<rparr>, Some TypeError)"
proof -
  have h: "typedStartTime (ctrl wEdited) = Some (descriptor0(''value'' \<mapsto> JNum 111))"
    "typedDuration (ctrl wEdited) = Some (descriptor0(''value'' \<mapsto> JNum 222))"
    "modelClientLabel (ctrl wEdited) = JStr ''srv''"
    by (simp_all add: wEdited_def)
  note t = refresh_copies_edits_to_scope
    [of wEdited "descriptor0(''value'' \<mapsto> JNum 111)" "descriptor0(''value'' \<mapsto> JNum 222)"]
  from t h have eq: "refreshReport wEdited =
        (wEdited\<lparr>scope := (scope wEdited)(''startTime'' \<mapsto> JNum 111,
                              ''duration'' \<mapsto> JNum 222,
                              ''clientLabel'' \<mapsto> JStr ''srv'')\<rparr>, None)"
    by (simp add: getProp_def)
  have r: "snd (refreshReport wEdited) = None"
    "getProp (scope (fst (refreshReport wEdited))) ''startTime'' = JNum 111"
    "getProp (scope (fst (refreshReport wEdited))) ''duration'' = JNum 222"
    "getProp (scope (fst (refreshReport wEdited))) ''clientLabel'' = JStr ''srv''"
    by (simp_all add: eq getProp_def)
  from t have fr: "ctrl (fst (refreshReport wEdited)) = ctrl wEdited"
    "pending (fst (refreshReport wEdited)) = pending wEdited"
    by blast+
  have f0: "typedStartTime (ctrl wFresh) = None"
    by (simp add: wFresh_def construct_def)
  from refresh_copies_edits_to_scope [of wFresh] f0
  have f1: "refreshReport wFresh = (wFresh, Some TypeError)"
    by blast
  have g0: "typedStartTime (ctrl wHalf) = Some (descriptor0(''value'' \<mapsto> JNum 111))"
    "typedDuration (ctrl wHalf) = None"
    by (simp_all add: wHalf_def Let_def datetimeDescriptorLoaded_def settle_def construct_def)
  from refresh_copies_edits_to_scope [of wHalf "descriptor0(''value'' \<mapsto> JNum 111)"] g0
  have "refreshReport wHalf =
      (wHalf\<lparr>scope := (scope wHalf)(''startTime'' \<mapsto>
         getProp (descriptor0(''value'' \<mapsto> JNum 111)) ''value'')\<rparr>, Some TypeError)"
    by blast
  then have g1: "refreshReport wHalf =
      (wHalf\<lparr>scope := (scope wHalf)(''startTime'' \<mapsto> JNum 111)\<rparr>, Some TypeError)"
    by (simp add: getProp_def)
  from h r fr f0 f1 g0 g1 show ?thesis by blast
qed

text \<open>
  C7 as stated (refresh copies the three edited values) fails before both descriptors
  have arrived. On the controller as constructed, after the user has edited the label,
  refreshReport throws and the scope's \<open>clientLabel\<close> is not assigned. After the first
  descriptor has arrived and the user has edited the start time and the label,
  refreshReport assigns \<open>startTime\<close> and throws: \<open>duration\<close> and \<open>clientLabel\<close> are
  not assigned, and the edited label is not copied.
\<close>

theorem refresh_before_descriptors_counterexample:
  "run E0 [EditModelClientLabel (JStr ''srv'')] (construct E0 Map.empty) = Some wFresh \<and>
   modelClientLabel (ctrl wFresh) = JStr ''srv'' \<and>
   snd (refreshReport wFresh) = Some TypeError \<and>
   getProp (scope (fst (refreshReport wFresh))) ''clientLabel'' = Undefined \<and>
   run E0 traceHalf (construct E0 Map.empty) = Some wHalf \<and>
   modelClientLabel (ctrl wHalf) = JStr ''srv'' \<and>
   snd (refreshReport wHalf) = Some TypeError \<and>
   getProp (scope (fst (refreshReport wHalf))) ''startTime'' = JNum 111 \<and>
   getProp (scope (fst (refreshReport wHalf))) ''duration'' = Undefined \<and>
   getProp (scope (fst (refreshReport wHalf))) ''clientLabel'' = Undefined"
  by (simp add: wFresh_def wHalf_def traceHalf_def descriptor0_def ctl_defs Let_def)

end
